theory Spec2Isabelle
  imports Main
begin

unbundle bit_operations_syntax

chapter \<open>The time-travel debugging core of DeZog\<close>

text \<open>
  A shallow embedding of the parts of DeZog that its specification makes claims about, and
  the proofs of these claims:
  \<^item> the instruction history of the internal simulator, a ring buffer with a read and a
    write cursor (\<open>ZxSimCpuHistory\<close>);
  \<^item> the search for the CALL or RST in front of a return address and the frames built from
    it (\<open>ZesaruxEmulator.findCallOrRst\<close>, \<open>setupCallStackFrameArray\<close>);
  \<^item> the virtual call stack while stepping forward through the history
    (\<open>ZesaruxEmulator.handleReverseDebugStackFwrd\<close>);
  \<^item> the pool of breakpoint ids and the arming of watchpoints
    (\<open>initBreakpoints\<close>, \<open>setBreakpoint\<close>, \<open>removeBreakpoint\<close>, \<open>setWatchpoints\<close>);
  \<^item> the descriptors of the memory banks (\<open>MemoryModel.getMemoryBanks\<close> and its
    overriding implementations).
  JavaScript numbers are integers (\<open>int\<close>) throughout: the code computes with addresses,
  indices and ids. The definitions come first, the properties after them.
\<close>

section \<open>Numbers as text\<close>

text \<open>
  \<open>Number.prototype.toString(radix)\<close> on an integer: the digits of the absolute value,
  lower case, most significant first, after a minus sign for a negative number. The radix
  is 10 or 16 in all uses below (JavaScript accepts 2 to 36).
\<close>

definition digit_char :: "nat \<Rightarrow> char" where
  "digit_char d = ''0123456789abcdefghijklmnopqrstuvwxyz'' ! d"

function to_digits :: "nat \<Rightarrow> nat \<Rightarrow> nat list" where
  "to_digits b n = (if b < 2 \<or> n < b then [n] else to_digits b (n div b) @ [n mod b])"
  by pat_completeness auto
termination
  by (relation "measure snd") auto

declare to_digits.simps [simp del]

definition toString :: "int \<Rightarrow> nat \<Rightarrow> string" where
  "toString v radix =
     (if v < 0 then ''-'' @ map digit_char (to_digits radix (nat (- v)))
      else map digit_char (to_digits radix (nat v)))"

definition upper_char :: "char \<Rightarrow> char" where
  "upper_char c =
     (if c = CHR ''a'' then CHR ''A'' else if c = CHR ''b'' then CHR ''B''
      else if c = CHR ''c'' then CHR ''C'' else if c = CHR ''d'' then CHR ''D''
      else if c = CHR ''e'' then CHR ''E'' else if c = CHR ''f'' then CHR ''F''
      else c)"

text \<open>
  Modelled from the spec: \<open>Utility.getHexString(value, size)\<close> (utility.ts is not under
  the sources), the "hexadecimal label" of a number: its hexadecimal digits in upper case,
  padded with zeros on the left to \<open>size\<close> digits.
\<close>

definition getHexString :: "int \<Rightarrow> nat \<Rightarrow> string" where
  "getHexString v digits =
     (let s = map upper_char (toString v 16)
      in replicate (digits - length s) CHR ''0'' @ s)"

text \<open>
  \<open>parseInt(s, 16)\<close> on the text of a memory dump: the value of the longest prefix of
  hexadecimal digits, \<open>NaN\<close> (here \<open>None\<close>) when there is none. Signs, blanks and
  a \<open>0x\<close> prefix do not occur in a dump and are not modelled.
\<close>

definition hex_digit_values :: "(char \<times> nat) list" where
  "hex_digit_values =
     [(CHR ''0'', 0), (CHR ''1'', 1), (CHR ''2'', 2), (CHR ''3'', 3), (CHR ''4'', 4),
      (CHR ''5'', 5), (CHR ''6'', 6), (CHR ''7'', 7), (CHR ''8'', 8), (CHR ''9'', 9),
      (CHR ''a'', 10), (CHR ''b'', 11), (CHR ''c'', 12), (CHR ''d'', 13), (CHR ''e'', 14),
      (CHR ''f'', 15),
      (CHR ''A'', 10), (CHR ''B'', 11), (CHR ''C'', 12), (CHR ''D'', 13), (CHR ''E'', 14),
      (CHR ''F'', 15)]"

definition hex_val :: "char \<Rightarrow> nat option" where
  "hex_val c = map_of hex_digit_values c"

fun hex_prefix :: "string \<Rightarrow> nat list" where
  "hex_prefix [] = []"
| "hex_prefix (c # cs) = (case hex_val c of None \<Rightarrow> [] | Some d \<Rightarrow> d # hex_prefix cs)"

definition parseInt16 :: "string \<Rightarrow> int option" where
  "parseInt16 s =
     (let ds = hex_prefix s
      in if ds = [] then None else Some (foldl (\<lambda>a d. 16 * a + int d) 0 ds))"

text \<open>\<open>ToInt32\<close>, as the bit operators apply it: \<open>NaN\<close> becomes 0. The numbers met
  here have at most four hexadecimal digits, so that no wrap-around to 32 bits occurs.\<close>

fun ToInt32 :: "int option \<Rightarrow> int" where
  "ToInt32 None = 0"
| "ToInt32 (Some v) = v"

definition substr :: "string \<Rightarrow> nat \<Rightarrow> nat \<Rightarrow> string" where
  "substr s start len = take len (drop start s)"

definition startsWith :: "string \<Rightarrow> string \<Rightarrow> bool" where
  "startsWith s p \<longleftrightarrow> take (length p) s = p"

section \<open>JavaScript arrays and numbers\<close>

text \<open>
  A JavaScript array is modelled as a list of optional elements: \<open>None\<close> is a hole,
  which reads as \<open>undefined\<close>. Reading outside the array gives \<open>undefined\<close> as well.
  Writing at the length appends, writing beyond the length leaves holes in between.
  A write at a negative index creates a named property and touches neither the elements
  nor the length; the model keeps the elements and does not record the property
  (lemma \<open>wf_history_reachable\<close> shows that the history store never writes there).
\<close>

definition js_get :: "'a option list \<Rightarrow> int \<Rightarrow> 'a option" where
  "js_get xs i = (if 0 \<le> i \<and> i < int (length xs) then xs ! nat i else None)"

definition js_set :: "'a option list \<Rightarrow> int \<Rightarrow> 'a \<Rightarrow> 'a option list" where
  "js_set xs i v =
     (if i < 0 then xs
      else if i < int (length xs) then xs[nat i := Some v]
      else xs @ replicate (nat i - length xs) None @ [Some v])"

section \<open>Call frames\<close>

text \<open>
  \<open>new Frame(addr, stackAddr, name)\<close>: a frame of the call stack with the raw stack
  values pushed inside the frame (\<open>frame.stack\<close>, empty at construction). The class
  itself (frame.ts) is not part of the sources at hand; only its constructor calls and
  the \<open>stack\<close> field are used.
\<close>

record Frame =
  addr :: int
  stackAddr :: int
  name :: string
  stack :: "int list"

definition new_Frame :: "int \<Rightarrow> int \<Rightarrow> string \<Rightarrow> Frame" where
  "new_Frame a sa n = \<lparr>addr = a, stackAddr = sa, name = n, stack = []\<rparr>"

section \<open>Instruction history store (ZxSimCpuHistory)\<close>

text \<open>
  The fields of \<open>ZxSimCpuHistory\<close> and of its base class \<open>CpuHistoryClass\<close> that the
  methods below touch. \<open>historyIndex\<close> is the read cursor (\<open>-1\<close> = live),
  \<open>historyWriteIndex\<close> the write cursor (last written position).
\<close>

record 'a ZxSimCpuHistory =
  history :: "'a option list"
  historyIndex :: int
  historyWriteIndex :: int
  maxSize :: int
  revDbgHistory :: "int list"
  reverseDbgStack :: "Frame list option"

text \<open>
  Modelled from the spec: \<open>CpuHistoryClass.init\<close> (cpuhistory.ts is not under the
  sources): "\<open>init()\<close> resets to empty, write cursor = none, read cursor = live".
  The capacity comes from the launch settings and is a parameter here. The base class has
  no write cursor; \<open>ZxSimCpuHistory.init\<close> sets it right after.
\<close>

definition CpuHistoryClass_init :: "int \<Rightarrow> 'a ZxSimCpuHistory" where
  "CpuHistoryClass_init m =
     \<lparr>history = [], historyIndex = -1, historyWriteIndex = 0, maxSize = m,
      revDbgHistory = [], reverseDbgStack = None\<rparr>"

text \<open>\<open>ZxSimCpuHistory.init\<close>: \<open>super.init(); this.historyWriteIndex = -1\<close>.\<close>

definition init :: "int \<Rightarrow> 'a ZxSimCpuHistory" where
  "init m = (CpuHistoryClass_init m)\<lparr>historyWriteIndex := -1\<rparr>"

text \<open>
  \<open>ZxSimCpuHistory.clear\<close>: the body of the immediately invoked async function has no
  \<open>await\<close>, so it runs to completion inside the call.
\<close>

definition clear :: "'a ZxSimCpuHistory \<Rightarrow> 'a ZxSimCpuHistory" where
  "clear s = s\<lparr>historyIndex := -1, revDbgHistory := [], reverseDbgStack := None\<rparr>"

text \<open>\<open>getPrevRegistersAsync\<close>: the returned value and the new state.\<close>

definition getPrevRegistersAsync ::
  "'a ZxSimCpuHistory \<Rightarrow> 'a option \<times> 'a ZxSimCpuHistory" where
  "getPrevRegistersAsync s =
     (let index = historyIndex s in
      if index < 0 then
        (let index = historyWriteIndex s in
         (js_get (history s) index, s\<lparr>historyIndex := index\<rparr>))
      else
        (let index = index - 1;
             index = (if index < 0 then int (length (history s)) - 1 else index) in
         if index = historyWriteIndex s then (None, s)
         else (js_get (history s) index, s\<lparr>historyIndex := index\<rparr>)))"

text \<open>\<open>getNextRegisters\<close>.\<close>

definition getNextRegisters ::
  "'a ZxSimCpuHistory \<Rightarrow> 'a option \<times> 'a ZxSimCpuHistory" where
  "getNextRegisters s =
     (let index = historyIndex s in
      if index = historyWriteIndex s then (None, s\<lparr>historyIndex := -1\<rparr>)
      else
        (let index = index + 1;
             index = (if index \<ge> int (length (history s)) then 0 else index) in
         (js_get (history s) index, s\<lparr>historyIndex := index\<rparr>)))"

text \<open>\<open>pushHistoryInfo(line, exchange)\<close>.\<close>

definition pushHistoryInfo ::
  "'a ZxSimCpuHistory \<Rightarrow> 'a \<Rightarrow> bool \<Rightarrow> 'a ZxSimCpuHistory" where
  "pushHistoryInfo s line exchange =
     (if exchange \<and> length (history s) > 0 then
        s\<lparr>history := js_set (history s) (historyWriteIndex s) line\<rparr>
      else if int (length (history s)) \<ge> maxSize s then
        (let index = historyWriteIndex s + 1;
             index = (if index \<ge> maxSize s then 0 else index) in
         s\<lparr>historyWriteIndex := index, history := js_set (history s) index line\<rparr>)
      else
        s\<lparr>history := history s @ [Some line],
          historyWriteIndex := historyWriteIndex s + 1\<rparr>)"

text \<open>Pushing a sequence of lines with \<open>exchange = false\<close>, oldest first.\<close>

definition pushLines :: "'a ZxSimCpuHistory \<Rightarrow> 'a list \<Rightarrow> 'a ZxSimCpuHistory" where
  "pushLines s ls = foldl (\<lambda>s l. pushHistoryInfo s l False) s ls"

text \<open>The calls a client can make on the store, and a run of them from \<open>init\<close>.\<close>

datatype 'a hist_op = Push 'a bool | StepBack | StepForward | Clear

fun apply_op :: "'a ZxSimCpuHistory \<Rightarrow> 'a hist_op \<Rightarrow> 'a ZxSimCpuHistory" where
  "apply_op s (Push l x) = pushHistoryInfo s l x"
| "apply_op s StepBack = snd (getPrevRegistersAsync s)"
| "apply_op s StepForward = snd (getNextRegisters s)"
| "apply_op s Clear = clear s"

definition run_ops :: "int \<Rightarrow> 'a hist_op list \<Rightarrow> 'a ZxSimCpuHistory" where
  "run_ops m ops = foldl apply_op (init m) ops"

text \<open>
  The states the store can be in: the write cursor points into the buffer (or is \<open>-1\<close>
  while the buffer is empty), the read cursor is live (\<open>-1\<close>) or points into the buffer,
  and the buffer has no holes.
\<close>

definition wf_history :: "'a ZxSimCpuHistory \<Rightarrow> bool" where
  "wf_history s \<longleftrightarrow>
     (if history s = [] then historyWriteIndex s = -1
      else 0 \<le> historyWriteIndex s \<and> historyWriteIndex s < int (length (history s)))
     \<and> -1 \<le> historyIndex s \<and> historyIndex s < int (length (history s))
     \<and> None \<notin> set (history s)"

section \<open>Finding the caller of a return address (ZesaruxEmulator)\<close>

text \<open>
  The loop of \<open>findCallOrRst\<close> over the last two bytes, read as one number:
  \<open>while(opc12 != 0) { if((opc12 & 0b11000111) == 0b11000111) break; opc12 >>= 8; k++; }\<close>.
  It returns the final \<open>opc12\<close> and \<open>k\<close>.
\<close>

function rst_loop :: "int \<Rightarrow> int \<Rightarrow> int \<times> int" where
  "rst_loop opc12 k =
     (if opc12 \<noteq> 0 then
        (if opc12 AND 0xC7 = 0xC7 then (opc12, k)
         else rst_loop (drop_bit 8 opc12) (k + 1))
      else (opc12, k))"
  by pat_completeness auto

termination
proof (relation "measure (\<lambda>(x, k). nat \<bar>x\<bar>)")
  show "wf (measure (\<lambda>(x, k). nat \<bar>x\<bar>))" by simp
next
  fix opc12 k :: int
  assume nz: "opc12 \<noteq> 0" and nomatch: "opc12 AND 0xC7 \<noteq> 0xC7"
  have "\<bar>drop_bit 8 opc12\<bar> < \<bar>opc12\<bar>"
  proof (cases "0 \<le> opc12")
    case True
    then have "0 < opc12" using nz by simp
    then have "opc12 div 256 < opc12" by simp
    moreover have "0 \<le> opc12 div 256" using True by simp
    ultimately show ?thesis using True by (simp add: drop_bit_eq_div)
  next
    case False
    then have neg: "opc12 < 0" by simp
    have "opc12 \<noteq> -1" using nomatch by auto
    with neg have le: "opc12 \<le> -2" by simp
    have "opc12 div 256 < 0" using neg by simp
    moreover have "opc12 < opc12 div 256" using le by linarith
    ultimately show ?thesis using neg by (simp add: drop_bit_eq_div)
  qed
  then show "((drop_bit 8 opc12, k + 1), (opc12, k)) \<in> measure (\<lambda>(x, k). nat \<bar>x\<bar>)"
    by simp
qed

declare rst_loop.simps [simp del]

text \<open>
  \<open>findCallOrRst(addr, handler)\<close> sends \<open>read-memory (addr-3) 3\<close> and inspects the
  answer \<open>data\<close>, the three bytes before \<open>addr\<close> as six hexadecimal digits. The
  function of the model takes that answer and returns the pair \<open>(k, caddr)\<close> handed to
  the handler: \<open>k = 3\<close> for a CALL with its target, \<open>k = 1\<close> or \<open>2\<close> for a RST found
  at \<open>addr - k\<close> with its \<open>p\<close>, and \<open>(0, 0)\<close> for neither. Where the last
  four digits are no number (\<open>NaN\<close>), the loop runs once (\<open>NaN != 0\<close> holds, the
  mask gives 0) and leaves \<open>opc12 = 0\<close> and \<open>k = 2\<close>.
\<close>

definition findCallOrRst :: "string \<Rightarrow> int \<times> int" where
  "findCallOrRst data =
     (let opc3 = parseInt16 (substr data 0 2) in
      if opc3 = Some 0xCD \<or> ToInt32 opc3 AND 0xC7 = 0xC4 then
        (let callAddr = ToInt32 (parseInt16 (substr data 2 4));
             callAddr = drop_bit 8 callAddr + push_bit 8 (callAddr AND 0xFF)
         in (3, callAddr))
      else
        (let (opc12, k) = (case parseInt16 (substr data 2 4) of
                             None \<Rightarrow> (0, 2)
                           | Some v \<Rightarrow> rst_loop v 1) in
         if opc12 \<noteq> 0 then (k, opc12 AND 0x38) else (0, 0)))"

text \<open>The answer of \<open>read-memory\<close> for three bytes: two hexadecimal digits each.\<close>

definition hex_dump3 :: "nat \<Rightarrow> nat \<Rightarrow> nat \<Rightarrow> string" where
  "hex_dump3 b1 b2 b3 =
     getHexString (int b1) 2 @ getHexString (int b2) 2 @ getHexString (int b3) 2"

text \<open>
  The label table: \<open>Labels.getLabelsForNumber(n)\<close> (labels.ts is not under the sources)
  returns the labels known for a number; the table is an association list here.
\<close>

type_synonym label_table = "(int \<times> string) list"

definition getLabelsForNumber :: "label_table \<Rightarrow> int \<Rightarrow> string list" where
  "getLabelsForNumber labels n = map snd (filter (\<lambda>e. fst e = n) labels)"

text \<open>
  \<open>RefList\<close> (reflist.ts is not under the sources) is an array of objects handing out
  references: \<open>addObject\<close> appends an object and returns its reference, \<open>getObject\<close>
  resolves a reference. The model keeps the objects in a list and uses the position in
  the list as the reference.
\<close>

definition addObject :: "Frame list \<Rightarrow> Frame \<Rightarrow> Frame list \<times> nat" where
  "addObject frames f = (frames @ [f], length frames)"

definition getObject :: "Frame list \<Rightarrow> nat \<Rightarrow> Frame option" where
  "getObject frames r = (if r < length frames then Some (frames ! r) else None)"

datatype error = AssertionError | TypeError

text \<open>
  The handler that \<open>setupCallStackFrameArray\<close> passes to \<open>findCallOrRst\<close> for the
  stack word \<open>retAddr\<close> (\<open>addr\<close> in the source) at position \<open>index\<close>: it receives \<open>(k, callAddr)\<close> and returns
  the frames and the reference of the last call frame, with which the function goes on to
  the next stack word. Reading the \<open>stack\<close> of a frame that does not exist is a
  \<open>TypeError\<close>.
\<close>

definition callStackFrame_handler ::
  "label_table \<Rightarrow> int \<Rightarrow> nat \<Rightarrow> int \<Rightarrow> Frame list \<times> nat \<Rightarrow> int \<times> int
     \<Rightarrow> error + Frame list \<times> nat" where
  "callStackFrame_handler labels zStackAddress index retAddr st res =
     (let (frames, lastCallFrameIndex) = st; (k, callAddr) = res in
      if k = 3 then
        (let labelCallAddrArr = getLabelsForNumber labels callAddr;
             labelCallAddr = (if length labelCallAddrArr > 0 then hd labelCallAddrArr
                              else getHexString callAddr 4 @ ''h'')
         in Inr (addObject frames
              (new_Frame (retAddr - 3) (zStackAddress + 2 * int index) (''CALL '' @ labelCallAddr))))
      else if k = 1 \<or> k = 2 then
        (let pString = getHexString callAddr 2 @ ''h''
         in Inr (addObject frames
              (new_Frame (retAddr - k) (zStackAddress + 2 * int index) (''RST '' @ pString))))
      else
        (case getObject frames lastCallFrameIndex of
           None \<Rightarrow> Inl TypeError
         | Some frame \<Rightarrow>
             Inr (frames[lastCallFrameIndex := frame\<lparr>stack := stack frame @ [retAddr]\<rparr>],
                  lastCallFrameIndex)))"

section \<open>Virtual call stack while stepping forward through the history (ZesaruxEmulator)\<close>

text \<open>
  A line of the transaction log, as the code looks at it: through
  \<open>cpuTransactionLog.getInstruction(line)\<close> and through \<open>Z80Registers.parsePC\<close> and
  \<open>parseSP\<close> of \<open>cpuTransactionLog.getRegisters(line)\<close>. The parsers are not under the
  sources; the record holds what they return for the line.
\<close>

record HistLine =
  instr :: string
  regPC :: int
  regSP :: int

text \<open>
  \<open>handleReverseDebugStackFwrd(currentLine, nextLine)\<close> on \<open>this.reverseDbgStack\<close>
  (\<open>dbgStack\<close> below; the function returns its new value).
  \<open>nextLine\<close> is \<open>None\<close> when the source's value is \<open>undefined\<close> or empty; the
  stack is \<open>None\<close> when it is \<open>undefined\<close>. \<open>shift\<close> and \<open>unshift\<close> work at
  the head of the list: the head is the top frame. A failed \<open>assert\<close> and the access
  to the length of an undefined stack are errors.
\<close>

definition handleReverseDebugStackFwrd ::
  "label_table \<Rightarrow> HistLine \<Rightarrow> HistLine option \<Rightarrow> Frame list option
     \<Rightarrow> error + Frame list option" where
  "handleReverseDebugStackFwrd labels currentLine nextLine dbgStack =
     (case nextLine of
        None \<Rightarrow> Inr None
      | Some nextL \<Rightarrow>
         (case dbgStack of
            None \<Rightarrow> Inl TypeError
          | Some st \<Rightarrow>
             if \<not> length st > 0 then Inl AssertionError
             else
               (let st1 = tl st;
                    instr = instr currentLine;
                    topFrame = new_Frame (regPC nextL) (regSP nextL) ''PC''
                in
                if startsWith instr ''RET'' then
                  (if \<not> length st1 > 0 then Inl AssertionError
                   else Inr (Some (topFrame # tl st1)))
                else if startsWith instr ''CALL'' \<or> startsWith instr ''RST'' then
                  (let currentSP = regSP currentLine;
                       nextSP = regSP nextL
                   in
                   if currentSP > nextSP then
                     (let pc = regPC currentLine;
                          callAddr = regPC nextL;
                          labelCallAddrArr = getLabelsForNumber labels callAddr;
                          labelCallAddr =
                            (if length labelCallAddrArr > 0 then hd labelCallAddrArr
                             else getHexString callAddr 4 @ ''h'');
                          name = (if startsWith instr ''CALL'' then ''CALL '' else ''RST '')
                                   @ labelCallAddr;
                          frame = new_Frame pc currentSP name
                      in Inr (Some (topFrame # frame # st1)))
                   else Inr (Some (topFrame # st1)))
                else Inr (Some (topFrame # st1)))))"

section \<open>Breakpoints and watchpoints (ZesaruxEmulator)\<close>

text \<open>
  \<open>EmulatorBreakpoint\<close> and \<open>GenericWatchpoint\<close> as the code uses them (their
  declarations are not under the sources). \<open>log\<close> is \<open>None\<close> when undefined.
  The watchpoint's \<open>address\<close> and \<open>size\<close> are named \<open>wpAddress\<close> and \<open>wpSize\<close>.
\<close>

record EmulatorBreakpoint =
  bpId :: int
  filePath :: string
  lineNr :: int
  address :: int
  condition :: string
  log :: "string option"

record GenericWatchpoint =
  wpAddress :: int
  wpSize :: int
  access :: string
  conditions :: string

text \<open>
  Breakpoint objects are shared between the caller and the list \<open>this.breakpoints\<close>,
  which \<open>indexOf\<close> searches by identity, and \<open>setBreakpoint\<close> writes into the object it
  is given. The objects therefore live in a store, and references to them are numbers.
  \<open>sent\<close> are the commands handed to \<open>zSocket.send\<close>, oldest first, and \<open>warnings\<close>
  the texts of the \<open>'warning'\<close> events emitted.
\<close>

type_synonym bp_ref = nat

record ZesaruxEmulator =
  freeBreakpointIds :: "int list"
  breakpoints :: "bp_ref list"
  store :: "bp_ref \<Rightarrow> EmulatorBreakpoint"
  sent :: "string list"
  warnings :: "string list"

definition MAX_ZESARUX_BREAKPOINTS :: int where
  "MAX_ZESARUX_BREAKPOINTS = 100"

definition MAX_USED_BREAKPOINTS :: int where
  "MAX_USED_BREAKPOINTS = MAX_ZESARUX_BREAKPOINTS - 1"

definition STEP_BREAKPOINT_ID :: int where
  "STEP_BREAKPOINT_ID = 100"

definition zSocket_send :: "string \<Rightarrow> ZesaruxEmulator \<Rightarrow> ZesaruxEmulator" where
  "zSocket_send cmd s = s\<lparr>sent := sent s @ [cmd]\<rparr>"

definition emit_warning :: "string \<Rightarrow> ZesaruxEmulator \<Rightarrow> ZesaruxEmulator" where
  "emit_warning text s = s\<lparr>warnings := warnings s @ [text]\<rparr>"

text \<open>\<open>clearAllZesaruxBreakpoints\<close>: \<open>disable-breakpoint i\<close> for \<open>i = 1 .. 100\<close>.\<close>

definition clearAllZesaruxBreakpoints :: "ZesaruxEmulator \<Rightarrow> ZesaruxEmulator" where
  "clearAllZesaruxBreakpoints s =
     foldl (\<lambda>s i. zSocket_send (''disable-breakpoint '' @ toString i 10) s) s
       [1..MAX_ZESARUX_BREAKPOINTS]"

text \<open>\<open>initBreakpoints\<close>: the free ids become \<open>1 .. MAX_USED_BREAKPOINTS\<close>.\<close>

definition initBreakpoints :: "ZesaruxEmulator \<Rightarrow> ZesaruxEmulator" where
  "initBreakpoints s =
     (let s = zSocket_send ''clear-membreakpoints'' s;
          s = zSocket_send ''enable-breakpoints'' s;
          s = clearAllZesaruxBreakpoints s
      in s\<lparr>freeBreakpointIds := [1..MAX_USED_BREAKPOINTS]\<rparr>)"

text \<open>
  \<open>setBreakpoint(bp)\<close> for the object behind the reference \<open>r\<close>; the result is the
  returned id and the new state. \<open>convertCondition\<close> rewrites the text of the condition
  with regular expressions and the label table; it is a parameter \<open>conv\<close> here, with
  \<open>None\<close> for \<open>undefined\<close>, so that what is proved holds for whatever it returns. The
  three commands are sent one after the other, each when the previous one was answered.
\<close>

definition setBreakpoint ::
  "(string \<Rightarrow> string option) \<Rightarrow> bp_ref \<Rightarrow> ZesaruxEmulator \<Rightarrow> int \<times> ZesaruxEmulator" where
  "setBreakpoint conv r s =
     (let bp = store s r in
      if (case log bp of None \<Rightarrow> False | Some l \<Rightarrow> l \<noteq> []) then
        (0, (emit_warning
               (''ZEsarUX does not support logpoints ('' @ [CHR 0x22] @ the (log bp) @ [CHR 0x22]
                  @ ''). Instead a normal breakpoint is set.'') s)
            \<lparr>store := (store s)(r := bp\<lparr>address := -1\<rparr>)\<rparr>)
      else
        (case conv (condition bp) of
           None \<Rightarrow>
             (0, (emit_warning
                    (''Breakpoint: Can'' @ [CHR 0x27] @ ''t set condition: '' @ condition bp) s)
                 \<lparr>store := (store s)(r := bp\<lparr>address := -1\<rparr>)\<rparr>)
         | Some zesaruxCondition \<Rightarrow>
             if length (freeBreakpointIds s) = 0 then (0, s)
             else
               (let bp = bp\<lparr>bpId := hd (freeBreakpointIds s)\<rparr>;
                    s = s\<lparr>store := (store s)(r := bp),
                          freeBreakpointIds := tl (freeBreakpointIds s)\<rparr>;
                    pcCond = ''PC=0'' @ getHexString (address bp) 4 @ ''h'';
                    (cond, zesaruxCondition) =
                      (if address bp \<ge> 0 then
                         (if length zesaruxCondition > 0
                          then (pcCond @ '' and '', ''('' @ zesaruxCondition @ '')'')
                          else (pcCond, zesaruxCondition))
                       else ([], zesaruxCondition));
                    cond = (if length zesaruxCondition > 0 then cond @ zesaruxCondition
                            else cond);
                    shortCond = (if length cond < 50 then cond
                                 else substr cond 0 50 @ ''...'');
                    idText = toString (bpId bp) 10;
                    s = zSocket_send (''set-breakpointaction '' @ idText
                          @ '' prints breakpoint '' @ idText @ '' hit ('' @ shortCond @ '')'') s;
                    s = zSocket_send (''set-breakpoint '' @ idText @ '' '' @ cond) s;
                    s = zSocket_send (''enable-breakpoint '' @ idText) s;
                    s = s\<lparr>breakpoints := breakpoints s @ [r]\<rparr>
                in (bpId bp, s))))"

text \<open>\<open>Array.prototype.indexOf\<close>: the first position of the element, or \<open>-1\<close>.\<close>

fun indexOf :: "'a list \<Rightarrow> 'a \<Rightarrow> int" where
  "indexOf [] x = -1"
| "indexOf (y # ys) x =
     (if y = x then 0 else (let i = indexOf ys x in if i = -1 then -1 else i + 1))"

text \<open>
  \<open>removeBreakpoint(bp)\<close> for the object behind \<open>r\<close>: the failed assertion is an
  error; otherwise the breakpoint leaves the list (\<open>splice(index, 1)\<close>) and
  \<open>freeBreakpointIds.push(index)\<close> is executed.
\<close>

definition removeBreakpoint :: "bp_ref \<Rightarrow> ZesaruxEmulator \<Rightarrow> error + ZesaruxEmulator" where
  "removeBreakpoint r s =
     (let bp = store s r;
          s = zSocket_send (''disable-breakpoint '' @ toString (bpId bp) 10) s;
          index = indexOf (breakpoints s) r
      in if index = -1 then Inl AssertionError
         else Inr (s\<lparr>breakpoints := take (nat index) (breakpoints s)
                                        @ drop (nat index + 1) (breakpoints s),
                      freeBreakpointIds := freeBreakpointIds s @ [index]\<rparr>))"

text \<open>
  A new emulator object before \<open>initBreakpoints\<close>: no free ids, no breakpoints, nothing
  sent. \<open>bp_store\<close> is a store holding the given breakpoint objects at the references
  \<open>0, 1, ...\<close> (and an unset breakpoint everywhere else).
\<close>

definition bp_store :: "EmulatorBreakpoint list \<Rightarrow> bp_ref \<Rightarrow> EmulatorBreakpoint" where
  "bp_store bps r =
     (if r < length bps then bps ! r
      else \<lparr>bpId = 0, filePath = [], lineNr = 0, address = -1, condition = [], log = None\<rparr>)"

definition new_ZesaruxEmulator :: "(bp_ref \<Rightarrow> EmulatorBreakpoint) \<Rightarrow> ZesaruxEmulator" where
  "new_ZesaruxEmulator st =
     \<lparr>freeBreakpointIds = [], breakpoints = [], store = st, sent = [], warnings = []\<rparr>"

text \<open>Sequences of \<open>setBreakpoint\<close> and \<open>removeBreakpoint\<close> calls; an error ends the run.\<close>

datatype bp_op = SetBp bp_ref | RemoveBp bp_ref

fun run_bp_ops ::
  "(string \<Rightarrow> string option) \<Rightarrow> ZesaruxEmulator \<Rightarrow> bp_op list \<Rightarrow> error + ZesaruxEmulator" where
  "run_bp_ops conv s [] = Inr s"
| "run_bp_ops conv s (SetBp r # ops) = run_bp_ops conv (snd (setBreakpoint conv r s)) ops"
| "run_bp_ops conv s (RemoveBp r # ops) =
     (case removeBreakpoint r s of Inl e \<Rightarrow> Inl e | Inr s' \<Rightarrow> run_bp_ops conv s' ops)"

text \<open>
  \<open>setWatchpoints(watchPoints, handler)\<close>: the loop over the watchpoints, with the
  access type and the text of the command of one watchpoint on their own. The handler, if
  any, is called with a copy of \<open>watchPoints\<close> once the socket queue is empty and does
  not touch the state.
\<close>

definition watchpoint_type :: "GenericWatchpoint \<Rightarrow> int" where
  "watchpoint_type wp =
     (let type = (0::int);
          type = (if CHR ''r'' \<in> set (access wp) then type OR 0x01 else type);
          type = (if CHR ''w'' \<in> set (access wp) then type OR 0x02 else type)
      in type)"

definition set_membreakpoint_cmd :: "GenericWatchpoint \<Rightarrow> string" where
  "set_membreakpoint_cmd wp =
     ''set-membreakpoint '' @ toString (wpAddress wp) 16 @ ''h ''
       @ toString (watchpoint_type wp) 10 @ '' '' @ toString (wpSize wp) 10"

definition setWatchpoint_step :: "ZesaruxEmulator \<Rightarrow> GenericWatchpoint \<Rightarrow> ZesaruxEmulator" where
  "setWatchpoint_step s wp =
     (if length (conditions wp) > 0 then s
      else zSocket_send (set_membreakpoint_cmd wp) s)"

definition setWatchpoints :: "GenericWatchpoint list \<Rightarrow> ZesaruxEmulator \<Rightarrow> ZesaruxEmulator" where
  "setWatchpoints watchPoints s = foldl setWatchpoint_step s watchPoints"

text \<open>
  Two predicates on the states of the emulator. \<open>pool_inv\<close>: the free ids lie between 0
  and 99, and free ids and set breakpoints together are 99. \<open>no_logpoints\<close>: no
  breakpoint object carries a log message.
\<close>

definition pool_inv :: "ZesaruxEmulator \<Rightarrow> bool" where
  "pool_inv s \<longleftrightarrow>
     (\<forall>x \<in> set (freeBreakpointIds s). 0 \<le> x \<and> x \<le> 99)
     \<and> int (length (freeBreakpointIds s)) + int (length (breakpoints s)) = 99"

definition no_logpoints :: "ZesaruxEmulator \<Rightarrow> bool" where
  "no_logpoints s \<longleftrightarrow> (\<forall>r. log (store s r) = None)"

section \<open>Memory models (MemoryModel and its subclasses)\<close>

text \<open>
  The interface \<open>MemoryBank\<close>; its fields \<open>start\<close>, \<open>end\<close> and \<open>name\<close> are
  \<open>mb_start\<close>, \<open>mb_end\<close> and \<open>mb_name\<close> here.
\<close>

record MemoryBank =
  mb_start :: int
  mb_end :: int
  mb_name :: string

text \<open>
  What \<open>CustomMemoryModel.getMemoryBanks\<close> reads from its owner, the \<open>CustomMemory\<close>
  (fields of \<open>SimulatedMemory\<close>, which is not under the sources): the current slot
  assignment, the flags of the ROM banks, the index of the bank standing for unpopulated
  memory (\<open>-1\<close> if there is none) and, in the variant of the class that keeps them, the
  flags of the populated slots.
\<close>

record CustomMemory =
  slots :: "int list"
  romBanks :: "bool list"
  notPopulatedBank :: int
  populatedSlots :: "bool list"

text \<open>
  The classes: the base class \<open>MemoryModel(slotCount, memoryBanks?)\<close>, on which
  \<open>Zx16MemoryModel\<close> and \<open>Zx48MemoryModel\<close> only fix the arguments;
  \<open>Zx128MemoryModel(countSlots)\<close>; \<open>ZxNextMemoryModel\<close>; and the two variants of
  \<open>CustomMemoryModel(owner)\<close> found in the sources, the one naming unpopulated memory
  by \<open>notPopulatedBank\<close> and the one doing it by \<open>populatedSlots\<close>.
\<close>

datatype MemoryModel =
    MemoryModel int "MemoryBank list option"
  | Zx128MemoryModel int
  | ZxNextMemoryModel
  | CustomMemoryModel CustomMemory
  | CustomMemoryModel_populatedSlots CustomMemory

definition Zx16MemoryModel :: MemoryModel where
  "Zx16MemoryModel = MemoryModel 4 (Some
     [\<lparr>mb_start = 0x0000, mb_end = 0x3FFF, mb_name = ''ROM''\<rparr>,
      \<lparr>mb_start = 0x4000, mb_end = 0x7FFF, mb_name = ''RAM''\<rparr>,
      \<lparr>mb_start = 0x8000, mb_end = 0xFFFF, mb_name = ''N/A''\<rparr>])"

definition Zx48MemoryModel :: MemoryModel where
  "Zx48MemoryModel = MemoryModel 4 (Some
     [\<lparr>mb_start = 0x0000, mb_end = 0x3FFF, mb_name = ''ROM''\<rparr>,
      \<lparr>mb_start = 0x4000, mb_end = 0xFFFF, mb_name = ''RAM''\<rparr>])"

text \<open>
  The number of slots handed to the constructor of the base class, and
  \<open>this.bankSize = 0x10000/slotCount\<close>. The division of the source is a floating point
  division. Where the number of slots divides \<open>0x10000\<close> its result is the integer
  computed here and all arithmetic on it is exact; for other numbers of slots the source
  computes with fractions, which this model does not follow.
\<close>

fun slotCount :: "MemoryModel \<Rightarrow> int" where
  "slotCount (MemoryModel n banks) = n"
| "slotCount (Zx128MemoryModel countSlots) = countSlots"
| "slotCount ZxNextMemoryModel = 8"
| "slotCount (CustomMemoryModel owner) = int (length (slots owner))"
| "slotCount (CustomMemoryModel_populatedSlots owner) = int (length (slots owner))"

definition bankSize :: "MemoryModel \<Rightarrow> int" where
  "bankSize m = 0x10000 div slotCount m"

text \<open>\<open>romBanks[bank]\<close> and \<open>populatedSlots[i]\<close> as conditions: outside the array
  they are \<open>undefined\<close>, which counts as false.\<close>

definition flag_at :: "bool list \<Rightarrow> int \<Rightarrow> bool" where
  "flag_at flags i \<longleftrightarrow> 0 \<le> i \<and> i < int (length flags) \<and> flags ! nat i"

text \<open>The names given to a slot by the four implementations of \<open>getMemoryBanks\<close>.\<close>

definition zx128_name :: "nat \<Rightarrow> int \<Rightarrow> string" where
  "zx128_name i bankIdx =
     (if i = 0 then ''ROM'' @ toString (bankIdx AND 0x01) 10
      else ''BANK'' @ toString bankIdx 10)"

definition zxnext_name :: "nat \<Rightarrow> int \<Rightarrow> string" where
  "zxnext_name i bank = (if bank \<ge> 254 then ''ROM'' else ''BANK'' @ toString bank 10)"

definition custom_name :: "CustomMemory \<Rightarrow> nat \<Rightarrow> int \<Rightarrow> string" where
  "custom_name owner i bank =
     (let romCount = int (length (filter (\<lambda>(b, i). b \<and> int i \<noteq> notPopulatedBank owner)
                                    (zip (romBanks owner) [0..<length (romBanks owner)])));
          ramCount = int (length (romBanks owner)) - romCount
      in if bank = notPopulatedBank owner then ''N/A''
         else if flag_at (romBanks owner) bank then
           (if romCount > 1 then ''ROM'' @ toString bank 10 else ''ROM'')
         else (if ramCount > 1 then ''BANK'' @ toString bank 10 else ''RAM''))"

definition custom_name_populatedSlots :: "CustomMemory \<Rightarrow> nat \<Rightarrow> int \<Rightarrow> string" where
  "custom_name_populatedSlots owner i bank =
     (let romCount = int (length (filter (\<lambda>b. b) (romBanks owner)));
          ramCount = int (length (romBanks owner)) - romCount
      in if \<not> flag_at (populatedSlots owner) (int i) then ''N/A''
         else if flag_at (romBanks owner) bank then
           (if romCount > 1 then ''ROM'' @ toString bank 10 else ''ROM'')
         else (if ramCount > 1 then ''BANK'' @ toString bank 10 else ''RAM''))"

text \<open>
  \<open>slots.map((bank, i) => { start = i*this.bankSize; end = start+this.bankSize-1; ... })\<close>,
  the body shared by the overriding implementations; \<open>nm\<close> computes the name.
\<close>

definition map_slots :: "int \<Rightarrow> (nat \<Rightarrow> int \<Rightarrow> string) \<Rightarrow> int list \<Rightarrow> MemoryBank list" where
  "map_slots bsize nm sl =
     map (\<lambda>(i, bank).
            (let start = int i * bsize;
                 end = start + bsize - 1;
                 name = nm i bank
             in \<lparr>mb_start = start, mb_end = end, mb_name = name\<rparr>))
         (enumerate 0 sl)"

text \<open>
  \<open>getMemoryBanks(slots)\<close> with \<open>slots: number[] | undefined\<close> (\<open>slotsArg\<close>). The base class returns
  its \<open>memoryBanks\<close>, \<open>undefined\<close> (\<open>None\<close>) if it was constructed without them. The
  ZX128 and ZX Next models return the empty array for undefined slots; the custom models
  then use the slots of their owner.
\<close>

fun getMemoryBanks :: "MemoryModel \<Rightarrow> int list option \<Rightarrow> MemoryBank list option" where
  "getMemoryBanks (MemoryModel n banks) slotsArg = banks"
| "getMemoryBanks (Zx128MemoryModel n) slotsArg =
     (case slotsArg of
        Some sl \<Rightarrow> Some (map_slots (bankSize (Zx128MemoryModel n)) zx128_name sl)
      | None \<Rightarrow> Some [])"
| "getMemoryBanks ZxNextMemoryModel slotsArg =
     (case slotsArg of
        Some sl \<Rightarrow> Some (map_slots (bankSize ZxNextMemoryModel) zxnext_name sl)
      | None \<Rightarrow> Some [])"
| "getMemoryBanks (CustomMemoryModel owner) slotsArg =
     (let sl = (case slotsArg of Some sl \<Rightarrow> sl | None \<Rightarrow> CustomMemory.slots owner)
      in Some (map_slots (bankSize (CustomMemoryModel owner)) (custom_name owner) sl))"
| "getMemoryBanks (CustomMemoryModel_populatedSlots owner) slotsArg =
     (let sl = (case slotsArg of Some sl \<Rightarrow> sl | None \<Rightarrow> CustomMemory.slots owner)
      in Some (map_slots (bankSize (CustomMemoryModel_populatedSlots owner))
                 (custom_name_populatedSlots owner) sl))"

text \<open>
  The property of a list of descriptors: it is not empty, starts at 0, ends at
  \<open>0xFFFF\<close>, every descriptor starts one after the end of the one before it, no
  descriptor ends before it starts, and the starts ascend.
\<close>

fun contiguous :: "MemoryBank list \<Rightarrow> bool" where
  "contiguous [] = True"
| "contiguous [b] = True"
| "contiguous (a # b # bs) = (mb_start b = mb_end a + 1 \<and> contiguous (b # bs))"

definition partitions_64k :: "MemoryBank list \<Rightarrow> bool" where
  "partitions_64k bs \<longleftrightarrow>
     bs \<noteq> [] \<and> mb_start (hd bs) = 0 \<and> mb_end (last bs) = 0xFFFF
     \<and> contiguous bs
     \<and> list_all (\<lambda>b. mb_start b \<le> mb_end b) bs
     \<and> sorted_wrt (<) (map mb_start bs)"

text \<open>
  A valid configuration: the number of slots is positive and divides \<open>0x10000\<close>; a base
  class object has been given descriptors that partition the address range. A slot
  assignment for a model: one bank per slot (the base class ignores it; the custom models
  also take none and use their own).
\<close>

fun valid_model :: "MemoryModel \<Rightarrow> bool" where
  "valid_model (MemoryModel n banks) =
     (0 < n \<and> n dvd 0x10000 \<and> (case banks of None \<Rightarrow> False | Some bs \<Rightarrow> partitions_64k bs))"
| "valid_model m = (0 < slotCount m \<and> slotCount m dvd 0x10000)"

fun slot_assignment :: "MemoryModel \<Rightarrow> int list option \<Rightarrow> bool" where
  "slot_assignment (MemoryModel n banks) slotsArg = True"
| "slot_assignment (Zx128MemoryModel n) slotsArg =
     (case slotsArg of None \<Rightarrow> False | Some sl \<Rightarrow> int (length sl) = n)"
| "slot_assignment ZxNextMemoryModel slotsArg =
     (case slotsArg of None \<Rightarrow> False | Some sl \<Rightarrow> int (length sl) = 8)"
| "slot_assignment m slotsArg =
     (case slotsArg of None \<Rightarrow> True | Some sl \<Rightarrow> int (length sl) = slotCount m)"

section \<open>Properties of the history store\<close>

lemma wf_history_init: "wf_history (init m)"
  by (simp add: wf_history_def init_def CpuHistoryClass_init_def)

lemma wf_history_clear: "wf_history s \<Longrightarrow> wf_history (clear s)"
  by (auto simp: wf_history_def clear_def split: if_splits)

lemma wf_history_getPrev: "wf_history s \<Longrightarrow> wf_history (snd (getPrevRegistersAsync s))"
  by (auto simp: wf_history_def getPrevRegistersAsync_def Let_def split: if_splits)

lemma wf_history_getNext: "wf_history s \<Longrightarrow> wf_history (snd (getNextRegisters s))"
  by (auto simp: wf_history_def getNextRegisters_def Let_def split: if_splits)

lemma set_update_Some:
  "None \<notin> set xs \<Longrightarrow> None \<notin> set (xs[i := Some v])"
  using set_update_subset_insert [of xs i "Some v"] by auto

lemma wf_history_push: "wf_history s \<Longrightarrow> wf_history (pushHistoryInfo s l x)"
proof -
  assume wf: "wf_history s"
  show ?thesis
  proof (cases "x \<and> length (history s) > 0")
    case True
    with wf show ?thesis
      by (simp add: wf_history_def pushHistoryInfo_def js_set_def set_update_Some)
  next
    case no_exchange: False
    show ?thesis
    proof (cases "int (length (history s)) \<ge> maxSize s")
      case True
      with wf no_exchange show ?thesis
        unfolding wf_history_def pushHistoryInfo_def Let_def js_set_def
        by (auto simp: set_update_Some split: if_splits)
    next
      case False
      with wf no_exchange show ?thesis
        unfolding wf_history_def pushHistoryInfo_def Let_def js_set_def
        by (auto split: if_splits)
    qed
  qed
qed

lemma wf_history_apply_op: "wf_history s \<Longrightarrow> wf_history (apply_op s op)"
  by (cases op)
     (simp_all add: wf_history_push wf_history_getPrev wf_history_getNext wf_history_clear)

lemma wf_history_foldl: "wf_history s \<Longrightarrow> wf_history (foldl apply_op s ops)"
  by (induction ops arbitrary: s) (simp_all add: wf_history_apply_op)

lemma wf_history_reachable: "wf_history (run_ops m ops)"
  by (simp add: run_ops_def wf_history_foldl wf_history_init)


lemma pushLines_snoc: "pushLines s (ls @ [l]) = pushHistoryInfo (pushLines s ls) l False"
  by (simp add: pushLines_def)

lemma pushLines_shape:
  assumes m: "0 < m"
  shows "int (length (history (pushLines (init m) ls))) = min (int (length ls)) m
       \<and> historyWriteIndex (pushLines (init m) ls)
           = (if ls = [] then -1 else (int (length ls) - 1) mod m)
       \<and> maxSize (pushLines (init m) ls) = m"
proof (induction ls rule: rev_induct)
  case Nil
  show ?case using m by (simp add: pushLines_def init_def CpuHistoryClass_init_def)
next
  case (snoc l ls)
  let ?s = "pushLines (init m) ls"
  let ?n = "int (length ls)"
  from snoc have len: "int (length (history ?s)) = min ?n m"
    and wi: "historyWriteIndex ?s = (if ls = [] then -1 else (?n - 1) mod m)"
    and ms: "maxSize ?s = m" by simp_all
  show ?case
  proof (cases "?n < m")
    case True
    then have wi': "historyWriteIndex ?s = ?n - 1"
      using wi by (cases "ls = []") simp_all
    from True len ms wi' show ?thesis
      by (simp add: pushLines_snoc pushHistoryInfo_def)
  next
    case False
    then have ge: "m \<le> ?n" by simp
    then have ne: "ls \<noteq> []" using m by auto
    have wi': "historyWriteIndex ?s = (?n - 1) mod m" using wi ne by simp
    have lenm: "int (length (history ?s)) = m" using len ge by simp
    have bound: "0 \<le> (?n - 1) mod m" "(?n - 1) mod m < m" using m by simp_all
    have next_idx: "(if (?n - 1) mod m + 1 \<ge> m then 0 else (?n - 1) mod m + 1) = ?n mod m"
    proof (cases "(?n - 1) mod m + 1 \<ge> m")
      case True
      with bound have "(?n - 1) mod m = m - 1" by simp
      then have "(?n - 1 + 1) mod m = (m - 1 + 1) mod m" by (metis mod_add_left_eq)
      then show ?thesis using True by simp
    next
      case False
      then have "(?n - 1) mod m + 1 < m" by simp
      moreover have "?n mod m = ((?n - 1) mod m + 1) mod m" by (simp add: mod_add_left_eq)
      ultimately show ?thesis using bound by simp
    qed
    have inrange: "0 \<le> ?n mod m" "?n mod m < int (length (history ?s))"
      using m lenm by simp_all
    show ?thesis
      using ge lenm ms wi' next_idx inrange m
      by (simp add: pushLines_snoc pushHistoryInfo_def Let_def js_set_def)
  qed
qed


lemma push_exchange_wf:
  assumes "wf_history s" "history s \<noteq> []"
  shows "history (pushHistoryInfo s l True) = (history s)[nat (historyWriteIndex s) := Some l]
       \<and> 0 \<le> historyWriteIndex s \<and> historyWriteIndex s < int (length (history s))
       \<and> length (history (pushHistoryInfo s l True)) = length (history s)
       \<and> historyWriteIndex (pushHistoryInfo s l True) = historyWriteIndex s
       \<and> historyIndex (pushHistoryInfo s l True) = historyIndex s"
  using assms by (simp add: wf_history_def pushHistoryInfo_def js_set_def)

text \<open>
  Claim C2. Starting from the initialised (empty) buffer with capacity \<open>m\<close>:
  pushing \<open>N < m\<close> lines with \<open>exchange = false\<close> gives length \<open>N\<close> and write
  cursor \<open>N - 1\<close>; pushing \<open>m + k\<close> lines gives length exactly \<open>m\<close> and write cursor
  \<open>(k - 1) mod m\<close>; and in every state reached from \<open>init\<close> whose buffer is not empty,
  a push with \<open>exchange = true\<close> overwrites the entry at the write cursor and changes
  neither the length nor a cursor.
\<close>

theorem pushHistoryInfo_ring_buffer:
  "(int (length ls) < m \<longrightarrow>
      length (history (pushLines (init m) ls)) = length ls
      \<and> historyWriteIndex (pushLines (init m) ls) = int (length ls) - 1)
   \<and> (0 < m \<and> int (length ls') = m + int k \<longrightarrow>
      int (length (history (pushLines (init m) ls'))) = m
      \<and> historyWriteIndex (pushLines (init m) ls') = (int k - 1) mod m)
   \<and> (history (run_ops m ops) \<noteq> [] \<longrightarrow>
      history (pushHistoryInfo (run_ops m ops) l True)
        = (history (run_ops m ops))[nat (historyWriteIndex (run_ops m ops)) := Some l]
      \<and> 0 \<le> historyWriteIndex (run_ops m ops)
      \<and> historyWriteIndex (run_ops m ops) < int (length (history (run_ops m ops)))
      \<and> length (history (pushHistoryInfo (run_ops m ops) l True))
        = length (history (run_ops m ops))
      \<and> historyWriteIndex (pushHistoryInfo (run_ops m ops) l True)
        = historyWriteIndex (run_ops m ops)
      \<and> historyIndex (pushHistoryInfo (run_ops m ops) l True)
        = historyIndex (run_ops m ops))"
proof (intro conjI impI)
  assume less: "int (length ls) < m"
  then have m: "0 < m" by linarith
  from pushLines_shape [OF m, of ls] less
  show "length (history (pushLines (init m) ls)) = length ls" by simp
  from pushLines_shape [OF m, of ls] less
  show "historyWriteIndex (pushLines (init m) ls) = int (length ls) - 1"
    by (cases "ls = []") simp_all
next
  assume h: "0 < m \<and> int (length ls') = m + int k"
  then have m: "0 < m" and len: "int (length ls') = m + int k" by simp_all
  from pushLines_shape [OF m, of ls'] len
  show "int (length (history (pushLines (init m) ls'))) = m" by simp
  have ne: "ls' \<noteq> []" using m len by auto
  have "(m + int k - 1) mod m = (int k - 1) mod m"
    by (metis add.commute add_diff_eq mod_add_self2)
  with pushLines_shape [OF m, of ls'] len ne
  show "historyWriteIndex (pushLines (init m) ls') = (int k - 1) mod m" by simp
next
  assume ne: "history (run_ops m ops) \<noteq> []"
  note ex = push_exchange_wf [OF wf_history_reachable ne, of l]
  from ex show "history (pushHistoryInfo (run_ops m ops) l True)
        = (history (run_ops m ops))[nat (historyWriteIndex (run_ops m ops)) := Some l]" by simp
  from ex show "0 \<le> historyWriteIndex (run_ops m ops)" by simp
  from ex show "historyWriteIndex (run_ops m ops) < int (length (history (run_ops m ops)))" by simp
  from ex show "length (history (pushHistoryInfo (run_ops m ops) l True))
        = length (history (run_ops m ops))" by simp
  from ex show "historyWriteIndex (pushHistoryInfo (run_ops m ops) l True)
        = historyWriteIndex (run_ops m ops)" by simp
  from ex show "historyIndex (pushHistoryInfo (run_ops m ops) l True)
        = historyIndex (run_ops m ops)" by simp
qed

lemmas history_eval =
  run_ops_def pushLines_def init_def CpuHistoryClass_init_def pushHistoryInfo_def
  getPrevRegistersAsync_def getNextRegisters_def clear_def js_set_def js_get_def Let_def

text \<open>
  One line into a buffer of capacity 2; three lines into the same buffer (the first one is
  evicted); and an exchange on the latter.
\<close>

theorem pushHistoryInfo_ring_buffer_witness:
  "int (length [''line1'']) < 2
   \<and> length (history (pushLines (init 2) [''line1''])) = 1
   \<and> historyWriteIndex (pushLines (init 2) [''line1'']) = 0
   \<and> (0 < (2::int) \<and> int (length [''line1'', ''line2'', ''line3'']) = 2 + int 1)
   \<and> history (pushLines (init 2) [''line1'', ''line2'', ''line3''])
       = [Some ''line3'', Some ''line2'']
   \<and> historyWriteIndex (pushLines (init 2) [''line1'', ''line2'', ''line3'']) = 0
   \<and> history (run_ops 2 [Push ''line1'' False, Push ''line2'' False, Push ''line3'' False])
       \<noteq> []
   \<and> history (pushHistoryInfo
        (run_ops 2 [Push ''line1'' False, Push ''line2'' False, Push ''line3'' False])
        ''line3b'' True) = [Some ''line3b'', Some ''line2'']
   \<and> historyWriteIndex (pushHistoryInfo
        (run_ops 2 [Push ''line1'' False, Push ''line2'' False, Push ''line3'' False])
        ''line3b'' True) = 0"
  using pushHistoryInfo_ring_buffer
    [of "[''line1'']" 2 "[''line1'', ''line2'', ''line3'']" 1
        "[Push ''line1'' False, Push ''line2'' False, Push ''line3'' False]" "''line3b''"]
  by (simp add: history_eval)

lemma wf_nth_Some:
  "wf_history s \<Longrightarrow> 0 \<le> i \<Longrightarrow> i < int (length (history s)) \<Longrightarrow> \<exists>l. history s ! nat i = Some l"
  unfolding wf_history_def
  by (metis nth_mem not_None_eq nat_less_iff)

lemma getPrev_wf:
  assumes wf: "wf_history s" and ne: "history s \<noteq> []"
  shows "(historyIndex s < 0 \<longrightarrow>
            getPrevRegistersAsync s
              = (history s ! nat (historyWriteIndex s), s\<lparr>historyIndex := historyWriteIndex s\<rparr>)
            \<and> (\<exists>l. history s ! nat (historyWriteIndex s) = Some l))
       \<and> (0 \<le> historyIndex s \<longrightarrow>
            (let j = (historyIndex s - 1) mod int (length (history s)) in
             if j = historyWriteIndex s then getPrevRegistersAsync s = (None, s)
             else getPrevRegistersAsync s = (history s ! nat j, s\<lparr>historyIndex := j\<rparr>)
                  \<and> (\<exists>l. history s ! nat j = Some l)))"
proof -
  let ?n = "int (length (history s))"
  have live: "getPrevRegistersAsync s
              = (history s ! nat (historyWriteIndex s), s\<lparr>historyIndex := historyWriteIndex s\<rparr>)
            \<and> (\<exists>l. history s ! nat (historyWriteIndex s) = Some l)"
    if live: "historyIndex s < 0"
  proof -
    from wf ne have r: "0 \<le> historyWriteIndex s" "historyWriteIndex s < ?n"
      by (simp_all add: wf_history_def)
    with live show ?thesis
      using wf_nth_Some [OF wf r] by (simp add: getPrevRegistersAsync_def Let_def js_get_def)
  qed
  have rewound: "let j = (historyIndex s - 1) mod ?n in
             if j = historyWriteIndex s then getPrevRegistersAsync s = (None, s)
             else getPrevRegistersAsync s = (history s ! nat j, s\<lparr>historyIndex := j\<rparr>)
                  \<and> (\<exists>l. history s ! nat j = Some l)"
    if pos: "0 \<le> historyIndex s"
  proof -
    from wf have hi: "historyIndex s < ?n" by (simp add: wf_history_def)
    define j where "j = (historyIndex s - 1) mod ?n"
    have j_eq: "j = (if historyIndex s - 1 < 0 then ?n - 1 else historyIndex s - 1)"
    proof (cases "historyIndex s = 0")
      case True
      have "0 < ?n" using hi pos by linarith
      then have "(- 1) mod ?n = ?n - 1" by (rule zmod_minus1)
      with True show ?thesis by (simp add: j_def)
    next
      case False
      with pos hi show ?thesis by (simp add: j_def)
    qed
    have npos: "0 < ?n" using hi pos by linarith
    have jr: "0 \<le> j" "j < ?n" using npos by (simp_all add: j_def)
    have "if j = historyWriteIndex s then getPrevRegistersAsync s = (None, s)
          else getPrevRegistersAsync s = (history s ! nat j, s\<lparr>historyIndex := j\<rparr>)
               \<and> (\<exists>l. history s ! nat j = Some l)"
      using pos jr wf_nth_Some [OF wf jr] j_eq
      by (simp add: getPrevRegistersAsync_def Let_def js_get_def)
    then show ?thesis unfolding j_def Let_def .
  qed
  from live rewound show ?thesis by blast
qed

text \<open>
  Claim C3. In every state reached from \<open>init\<close> whose buffer is not empty, the step back
  (\<open>getPrevRegistersAsync\<close>) does this: if the read cursor is live, it moves the read
  cursor to the write cursor and returns the entry there; otherwise it decrements the read
  cursor modulo the buffer length and returns the entry at the new position, unless the new
  position is the write cursor, in which case it returns \<open>undefined\<close> and leaves the
  state as it is.
\<close>

theorem getPrevRegistersAsync_step_back:
  assumes "history (run_ops m ops) \<noteq> []"
  shows "if historyIndex (run_ops m ops) < 0
         then getPrevRegistersAsync (run_ops m ops)
              = (history (run_ops m ops) ! nat (historyWriteIndex (run_ops m ops)),
                 (run_ops m ops)\<lparr>historyIndex := historyWriteIndex (run_ops m ops)\<rparr>)
            \<and> (\<exists>l. history (run_ops m ops) ! nat (historyWriteIndex (run_ops m ops)) = Some l)
         else (let j = (historyIndex (run_ops m ops) - 1) mod int (length (history (run_ops m ops))) in
             if j = historyWriteIndex (run_ops m ops)
             then getPrevRegistersAsync (run_ops m ops) = (None, run_ops m ops)
             else getPrevRegistersAsync (run_ops m ops)
                    = (history (run_ops m ops) ! nat j, (run_ops m ops)\<lparr>historyIndex := j\<rparr>)
                  \<and> (\<exists>l. history (run_ops m ops) ! nat j = Some l))"
  using getPrev_wf [OF wf_history_reachable assms] by (simp split: if_splits)

text \<open>
  Three lines in a buffer of capacity 2: the step back from live gives \<open>line3\<close>, the next
  one \<open>line2\<close>, the third one nothing.
\<close>

theorem getPrevRegistersAsync_step_back_witness:
  "history (run_ops 2 [Push ''line1'' False, Push ''line2'' False, Push ''line3'' False]) \<noteq> []
   \<and> fst (getPrevRegistersAsync
        (run_ops 2 [Push ''line1'' False, Push ''line2'' False, Push ''line3'' False]))
       = Some ''line3''
   \<and> fst (getPrevRegistersAsync
        (run_ops 2 [Push ''line1'' False, Push ''line2'' False, Push ''line3'' False, StepBack]))
       = Some ''line2''
   \<and> getPrevRegistersAsync
        (run_ops 2 [Push ''line1'' False, Push ''line2'' False, Push ''line3'' False,
                    StepBack, StepBack])
       = (None, run_ops 2 [Push ''line1'' False, Push ''line2'' False, Push ''line3'' False,
                    StepBack, StepBack])"
  using getPrevRegistersAsync_step_back
    [of 2 "[Push ''line1'' False, Push ''line2'' False, Push ''line3'' False]"]
    getPrevRegistersAsync_step_back
    [of 2 "[Push ''line1'' False, Push ''line2'' False, Push ''line3'' False, StepBack]"]
    getPrevRegistersAsync_step_back
    [of 2 "[Push ''line1'' False, Push ''line2'' False, Push ''line3'' False, StepBack, StepBack]"]
  by (simp add: history_eval)

text \<open>
  Claim C4. From the live state of a non-empty buffer, one step back followed by one step
  forward returns to the live state: the whole state, and so the buffer contents, the
  length and the write cursor, is what it was.
\<close>

theorem step_back_then_forward_roundtrip:
  assumes "history s \<noteq> []" and "historyIndex s = -1"
  shows "snd (getNextRegisters (snd (getPrevRegistersAsync s))) = s
       \<and> historyIndex (snd (getPrevRegistersAsync s)) = historyWriteIndex s
       \<and> fst (getNextRegisters (snd (getPrevRegistersAsync s))) = None
       \<and> historyIndex (snd (getNextRegisters (snd (getPrevRegistersAsync s)))) = -1
       \<and> history (snd (getNextRegisters (snd (getPrevRegistersAsync s)))) = history s
       \<and> historyWriteIndex (snd (getNextRegisters (snd (getPrevRegistersAsync s))))
           = historyWriteIndex s"
  using assms by (cases s) (simp add: getPrevRegistersAsync_def getNextRegisters_def Let_def)

theorem step_back_then_forward_roundtrip_witness:
  "history (pushLines (init 2) [''line1'', ''line2'', ''line3'']) \<noteq> []
   \<and> historyIndex (pushLines (init 2) [''line1'', ''line2'', ''line3'']) = -1
   \<and> fst (getPrevRegistersAsync (pushLines (init 2) [''line1'', ''line2'', ''line3'']))
       = Some ''line3''
   \<and> snd (getNextRegisters (snd (getPrevRegistersAsync
        (pushLines (init 2) [''line1'', ''line2'', ''line3'']))))
       = pushLines (init 2) [''line1'', ''line2'', ''line3'']"
  using step_back_then_forward_roundtrip
    [of "pushLines (init 2) [''line1'', ''line2'', ''line3'']"]
  by (simp add: history_eval)

text \<open>
  Claim C7, as stated, fails: \<open>clear\<close> neither truncates the buffer nor resets the write
  cursor. After one push, one step back and \<open>clear\<close>, the buffer still holds the line,
  the write cursor is still 0, and a step back finds the line.
\<close>

theorem clear_counterexample:
  "length (history (run_ops 2 [Push ''line1'' False, StepBack, Clear])) \<noteq> 0
   \<and> historyWriteIndex (run_ops 2 [Push ''line1'' False, StepBack, Clear])
       \<noteq> historyWriteIndex (init 2 :: string ZxSimCpuHistory)
   \<and> fst (getPrevRegistersAsync (run_ops 2 [Push ''line1'' False, StepBack, Clear]))
       = Some ''line1''"
  by (simp add: history_eval)

text \<open>
  Claim C7, amended. From any state, also in the middle of a rewind, \<open>clear\<close> resets the
  read cursor to live, empties the list of visited addresses and discards the virtual call
  stack; the buffer, the write cursor and the capacity stay as they are, so that a step
  back after \<open>clear\<close> on a non-empty buffer returns the entry at the write cursor.
\<close>

theorem clear_keeps_buffer:
  "historyIndex (clear s) = -1
   \<and> revDbgHistory (clear s) = []
   \<and> reverseDbgStack (clear s) = None
   \<and> history (clear s) = history s
   \<and> historyWriteIndex (clear s) = historyWriteIndex s
   \<and> maxSize (clear s) = maxSize s
   \<and> (wf_history s \<and> history s \<noteq> [] \<longrightarrow>
        fst (getPrevRegistersAsync (clear s)) = history s ! nat (historyWriteIndex s)
        \<and> (\<exists>l. history s ! nat (historyWriteIndex s) = Some l))"
proof -
  have "fst (getPrevRegistersAsync (clear s)) = history s ! nat (historyWriteIndex s)
        \<and> (\<exists>l. history s ! nat (historyWriteIndex s) = Some l)"
    if wf: "wf_history s" and ne: "history s \<noteq> []"
  proof -
    from wf ne have r: "0 \<le> historyWriteIndex s" "historyWriteIndex s < int (length (history s))"
      by (simp_all add: wf_history_def)
    with wf_nth_Some [OF wf r] show ?thesis
      by (simp add: getPrevRegistersAsync_def clear_def Let_def js_get_def)
  qed
  then show ?thesis by (simp add: clear_def)
qed

theorem clear_keeps_buffer_witness:
  "wf_history (run_ops 2 [Push ''line1'' False, StepBack])
   \<and> history (run_ops 2 [Push ''line1'' False, StepBack]) \<noteq> []
   \<and> historyIndex (run_ops 2 [Push ''line1'' False, StepBack]) = 0
   \<and> historyIndex (clear (run_ops 2 [Push ''line1'' False, StepBack])) = -1
   \<and> history (clear (run_ops 2 [Push ''line1'' False, StepBack])) = [Some ''line1'']
   \<and> fst (getPrevRegistersAsync (clear (run_ops 2 [Push ''line1'' False, StepBack])))
       = Some ''line1''"
  using clear_keeps_buffer [of "run_ops 2 [Push ''line1'' False, StepBack]"]
  by (simp add: history_eval wf_history_def)

section \<open>Properties of the caller search\<close>

lemma less_16_cases:
  "d < (16::nat) \<Longrightarrow> d = 0 \<or> d = 1 \<or> d = 2 \<or> d = 3 \<or> d = 4 \<or> d = 5 \<or> d = 6 \<or> d = 7
     \<or> d = 8 \<or> d = 9 \<or> d = 10 \<or> d = 11 \<or> d = 12 \<or> d = 13 \<or> d = 14 \<or> d = 15"
  by arith

lemma hex_val_digit: "d < 16 \<Longrightarrow> hex_val (upper_char (digit_char d)) = Some d"
  by (drule less_16_cases)
     (elim disjE; simp add: digit_char_def upper_char_def hex_val_def hex_digit_values_def)

lemma getHexString_byte:
  assumes "b < 256"
  shows "getHexString (int b) 2
         = [upper_char (digit_char (b div 16)), upper_char (digit_char (b mod 16))]"
proof (cases "b < 16")
  case True
  then have "to_digits 16 b = [b]" by (simp add: to_digits.simps)
  moreover have "upper_char (digit_char 0) = CHR ''0''"
    by (simp add: digit_char_def upper_char_def)
  ultimately show ?thesis using True by (simp add: getHexString_def toString_def)
next
  case False
  then have "b div 16 < 16" using assms by simp
  then have "to_digits 16 (b div 16) = [b div 16]" by (simp add: to_digits.simps)
  then have "to_digits 16 b = [b div 16, b mod 16]"
    using False by (subst to_digits.simps) simp
  then show ?thesis by (simp add: getHexString_def toString_def)
qed

lemma int_div_mod_16: "16 * int (b div 16) + int (b mod 16) = int b"
  by (simp add: zdiv_int zmod_int)

lemma parse_dump_first:
  assumes "b1 < 256" "b2 < 256" "b3 < 256"
  shows "parseInt16 (substr (hex_dump3 b1 b2 b3) 0 2) = Some (int b1)"
proof -
  have d: "b1 div 16 < 16" using assms by simp
  have m: "b1 mod 16 < 16" by simp
  show ?thesis
    using assms hex_val_digit [OF d] hex_val_digit [OF m] int_div_mod_16 [of b1]
    by (simp add: hex_dump3_def getHexString_byte substr_def parseInt16_def)
qed

lemma parse_dump_last:
  assumes "b1 < 256" "b2 < 256" "b3 < 256"
  shows "parseInt16 (substr (hex_dump3 b1 b2 b3) 2 4) = Some (int b2 * 256 + int b3)"
proof -
  have d2: "b2 div 16 < 16" and d3: "b3 div 16 < 16" using assms by simp_all
  have m2: "b2 mod 16 < 16" and m3: "b3 mod 16 < 16" by simp_all
  have "16 * (16 * (16 * int (b2 div 16) + int (b2 mod 16)) + int (b3 div 16)) + int (b3 mod 16)
        = int b2 * 256 + int b3"
    using int_div_mod_16 [of b2] int_div_mod_16 [of b3] by simp
  then show ?thesis
    using assms hex_val_digit [OF d2] hex_val_digit [OF m2]
      hex_val_digit [OF d3] hex_val_digit [OF m3]
    by (simp add: hex_dump3_def getHexString_byte substr_def parseInt16_def)
qed

lemma and_low_byte:
  assumes "0 \<le> lo" "lo < 256" and "0 \<le> m" "m < 256"
  shows "(hi * 256 + lo) AND m = lo AND (m::int)"
proof -
  have "take_bit 8 m = m" using assms by (simp add: take_bit_int_eq_self)
  then have m8: "mask 8 AND m = m" by (simp add: take_bit_eq_mask and.commute)
  have "(hi * 256 + lo) AND m = (hi * 256 + lo) AND (mask 8 AND m)" by (simp only: m8)
  also have "\<dots> = ((hi * 256 + lo) AND mask 8) AND m" by (simp only: and.assoc)
  also have "\<dots> = take_bit 8 (hi * 256 + lo) AND m" by (simp only: take_bit_eq_mask)
  also have "take_bit 8 (hi * 256 + lo) = lo"
    using assms by (simp add: take_bit_eq_mod)
  finally show ?thesis .
qed

lemma drop_high_byte:
  assumes "0 \<le> lo" "lo < (256::int)"
  shows "drop_bit 8 (hi * 256 + lo) = hi"
  using assms by (simp add: drop_bit_eq_div)

lemma drop_byte:
  assumes "0 \<le> b" "b < (256::int)"
  shows "drop_bit 8 b = 0"
  using assms by (simp add: drop_bit_eq_div)

lemma hi_or_lo:
  assumes "0 \<le> lo" "lo < (256::int)"
  shows "push_bit 8 hi OR lo = hi * 256 + lo"
proof -
  have lo8: "take_bit 8 lo = lo" using assms by (simp add: take_bit_int_eq_self)
  have "push_bit 8 hi + lo = push_bit 8 hi OR lo"
  proof (rule disjunctive_add)
    fix n
    show "\<not> bit (push_bit 8 hi) n \<or> \<not> bit lo n"
    proof (cases "n < 8")
      case True
      then show ?thesis by (simp add: bit_push_bit_iff)
    next
      case False
      have "bit lo n = bit (take_bit 8 lo) n" by (simp only: lo8)
      then show ?thesis using False by (simp add: bit_take_bit_iff)
    qed
  qed
  then show ?thesis by (simp add: push_bit_eq_mult)
qed

lemma rst_loop_two_bytes:
  assumes b2: "0 \<le> b2" "b2 < 256" and b3: "0 \<le> b3" "b3 < 256"
  shows "(let (opc12, k) = rst_loop (b2 * 256 + b3) 1
          in if opc12 \<noteq> 0 then (k, opc12 AND 0x38) else (0, 0))
         = (if b3 AND 0xC7 = 0xC7 then (1, b3 AND 0x38)
            else if b2 AND 0xC7 = 0xC7 then (2, b2 AND 0x38)
            else (0, 0))"
proof -
  let ?w = "b2 * 256 + b3"
  have last_bits: "?w AND 0xC7 = b3 AND 0xC7" "?w AND 0x38 = b3 AND 0x38"
    using b3 by (simp_all add: and_low_byte)
  have shift1: "drop_bit 8 ?w = b2" using b3 by (rule drop_high_byte)
  have shift2: "drop_bit 8 b2 = 0" using b2 by (rule drop_byte)
  have zero: "rst_loop 0 k = (0, k)" for k by (simp add: rst_loop.simps)
  have second: "rst_loop b2 2 = (if b2 AND 0xC7 = 0xC7 then (b2, 2) else (0, if b2 = 0 then 2 else 3))"
    by (subst rst_loop.simps) (auto simp: shift2 zero)
  show ?thesis
  proof (cases "?w = 0")
    case True
    then have "b2 = 0" "b3 = 0" using b2 b3 by linarith+
    then show ?thesis by (simp add: zero)
  next
    case nz: False
    show ?thesis
    proof (cases "b3 AND 0xC7 = 0xC7")
      case True
      then have "rst_loop ?w 1 = (?w, 1)"
        using nz last_bits by (subst rst_loop.simps) simp
      then show ?thesis using True nz last_bits by simp
    next
      case False
      then have "rst_loop ?w 1 = rst_loop b2 2"
        using nz last_bits shift1 by (subst rst_loop.simps) simp
      then show ?thesis using False second by auto
    qed
  qed
qed

lemma findCallOrRst_bytes:
  assumes "b1 < 256" "b2 < 256" "b3 < 256"
  shows "findCallOrRst (hex_dump3 b1 b2 b3)
         = (if b1 = 0xCD \<or> int b1 AND 0xC7 = 0xC4 then (3, push_bit 8 (int b3) OR int b2)
            else if int b3 AND 0xC7 = 0xC7 then (1, int b3 AND 0x38)
            else if int b2 AND 0xC7 = 0xC7 then (2, int b2 AND 0x38)
            else (0, 0))"
proof -
  have r2: "0 \<le> int b2" "int b2 < 256" and r3: "0 \<le> int b3" "int b3 < 256"
    using assms by simp_all
  have swap: "drop_bit 8 (int b2 * 256 + int b3) + push_bit 8 ((int b2 * 256 + int b3) AND 0xFF)
              = push_bit 8 (int b3) OR int b2"
  proof -
    have "(int b2 * 256 + int b3) AND 0xFF = int b3 AND 0xFF"
      using r3 by (simp add: and_low_byte)
    also have "\<dots> = int b3"
    proof -
      have "take_bit 8 (int b3) = int b3" using r3 by (simp add: take_bit_int_eq_self)
      moreover have "mask 8 = (0xFF::int)" by (simp add: mask_eq_exp_minus_1)
      ultimately show ?thesis by (simp add: take_bit_eq_mask)
    qed
    finally have low: "(int b2 * 256 + int b3) AND 0xFF = int b3" .
    have "drop_bit 8 (int b2 * 256 + int b3) = int b2" using r3 by (rule drop_high_byte)
    moreover have "push_bit 8 (int b3) OR int b2 = int b3 * 256 + int b2"
      using r2 by (rule hi_or_lo)
    ultimately show ?thesis by (simp only: low) (simp add: push_bit_eq_mult)
  qed
  show ?thesis
    using assms swap rst_loop_two_bytes [OF r2 r3]
    by (simp add: findCallOrRst_def parse_dump_first parse_dump_last)
qed

text \<open>
  Claim C5. For the three bytes \<open>b1 b2 b3\<close> before a return address: if \<open>b1\<close> is
  \<open>0xCD\<close> or matches \<open>11xxx100\<close>, the result is a CALL (\<open>k = 3\<close>) with target
  \<open>(b3 << 8) | b2\<close>, whatever the last two bytes are; otherwise, if the last byte \<open>b3\<close>
  or else the byte before it \<open>b2\<close> matches \<open>11xxx111\<close>, the result is a RST with
  \<open>p\<close> = that byte \<open>& 0b00111000\<close> (and \<open>k\<close> its distance from the return address);
  otherwise the result is \<open>(0, 0)\<close>, and the handler of the call stack creates no frame
  for it: it appends the return address to the raw stack of the last call frame.
\<close>

theorem findCallOrRst_classification:
  assumes "b1 < 256" "b2 < 256" "b3 < 256"
  shows "findCallOrRst (hex_dump3 b1 b2 b3)
         = (if b1 = 0xCD \<or> int b1 AND 0xC7 = 0xC4 then (3, push_bit 8 (int b3) OR int b2)
            else if int b3 AND 0xC7 = 0xC7 then (1, int b3 AND 0x38)
            else if int b2 AND 0xC7 = 0xC7 then (2, int b2 AND 0x38)
            else (0, 0))
       \<and> (\<not> (b1 = 0xCD \<or> int b1 AND 0xC7 = 0xC4) \<and> int b3 AND 0xC7 \<noteq> 0xC7
            \<and> int b2 AND 0xC7 \<noteq> 0xC7 \<and> lastCall < length frames \<longrightarrow>
          callStackFrame_handler labels zStackAddress index retAddr (frames, lastCall)
              (findCallOrRst (hex_dump3 b1 b2 b3))
            = Inr (frames[lastCall := (frames ! lastCall)
                     \<lparr>stack := stack (frames ! lastCall) @ [retAddr]\<rparr>], lastCall)
          \<and> length (frames[lastCall := (frames ! lastCall)
                     \<lparr>stack := stack (frames ! lastCall) @ [retAddr]\<rparr>]) = length frames)"
  using findCallOrRst_bytes [OF assms]
  by (simp add: callStackFrame_handler_def getObject_def)

text \<open>
  \<open>CD 00 80\<close> is a CALL to \<open>0x8000\<close>, also when the address bytes look like a RST
  (\<open>CD C7 FF\<close>); \<open>.. .. C7\<close> is \<open>RST 0\<close>; \<open>00 01 02\<close> is neither, and the
  return address \<open>0x1234\<close> goes to the raw stack of the frame of the PC.
\<close>

theorem findCallOrRst_classification_witness:
  "(0xCD::nat) < 256 \<and> (0::nat) < 256 \<and> (0x80::nat) < 256
   \<and> hex_dump3 0xCD 0x00 0x80 = ''CD0080''
   \<and> findCallOrRst (hex_dump3 0xCD 0x00 0x80) = (3, 0x8000)
   \<and> findCallOrRst (hex_dump3 0xCD 0xC7 0xFF) = (3, 0xFFC7)
   \<and> findCallOrRst (hex_dump3 0x12 0x34 0xC7) = (1, 0)
   \<and> findCallOrRst (hex_dump3 0x00 0x01 0x02) = (0, 0)
   \<and> int 0x02 AND 0xC7 \<noteq> 0xC7 \<and> int 0x01 AND 0xC7 \<noteq> 0xC7
   \<and> (0::nat) < length [new_Frame 0x9000 0xFF00 ''PC'']
   \<and> callStackFrame_handler [] 0xFF00 0 0x1234 ([new_Frame 0x9000 0xFF00 ''PC''], 0)
         (findCallOrRst (hex_dump3 0x00 0x01 0x02))
       = Inr ([\<lparr>addr = 0x9000, stackAddr = 0xFF00, name = ''PC'', stack = [0x1234]\<rparr>], 0)"
  using findCallOrRst_classification [where ?b1.0 = "0xCD" and ?b2.0 = "0x00" and ?b3.0 = "0x80"]
    findCallOrRst_classification [where ?b1.0 = "0xCD" and ?b2.0 = "0xC7" and ?b3.0 = "0xFF"]
    findCallOrRst_classification [where ?b1.0 = "0x12" and ?b2.0 = "0x34" and ?b3.0 = "0xC7"]
    findCallOrRst_classification
      [where ?b1.0 = "0x00" and ?b2.0 = "0x01" and ?b3.0 = "0x02" and lastCall = 0
         and frames = "[new_Frame 0x9000 0xFF00 ''PC'']" and labels = "[]"
         and zStackAddress = "0xFF00" and index = 0 and retAddr = "0x1234"]
  by (auto simp: new_Frame_def hex_dump3_def getHexString_def toString_def to_digits.simps
      digit_char_def upper_char_def)

section \<open>Properties of the virtual call stack\<close>

lemma call_or_rst_not_ret:
  "startsWith i ''CALL'' \<or> startsWith i ''RST'' \<Longrightarrow> \<not> startsWith i ''RET''"
  by (cases i; cases "tl i") (auto simp: startsWith_def)

text \<open>
  Claim C6, as stated, fails in its example: without a symbol for \<open>0x8000\<close> the frame of
  the call is labelled \<open>CALL 8000h\<close> (four hexadecimal digits and \<open>h\<close>), not
  \<open>CALL L8000\<close>.
\<close>

theorem handleReverseDebugStackFwrd_counterexample:
  "handleReverseDebugStackFwrd []
     \<lparr>instr = ''CALL 8000h'', regPC = 0x9000, regSP = 0xFF00\<rparr>
     (Some \<lparr>instr = ''NOP'', regPC = 0x8000, regSP = 0xFEFE\<rparr>)
     (Some [\<lparr>addr = 0x9000, stackAddr = 0xFF00, name = ''PC'', stack = []\<rparr>])
   = Inr (Some [\<lparr>addr = 0x8000, stackAddr = 0xFEFE, name = ''PC'', stack = []\<rparr>,
                \<lparr>addr = 0x9000, stackAddr = 0xFF00, name = ''CALL 8000h'', stack = []\<rparr>])
   \<and> ''CALL 8000h'' \<noteq> ''CALL L8000''"
  by (simp add: handleReverseDebugStackFwrd_def startsWith_def new_Frame_def
      getLabelsForNumber_def getHexString_def toString_def to_digits.simps
      digit_char_def upper_char_def)

text \<open>
  Claim C6, amended. For a step forward from line \<open>L\<close> to an existing successor \<open>N\<close>,
  where \<open>L\<close> is a CALL or RST and SP decreased from \<open>L\<close> to \<open>N\<close>: the top frame is
  popped, a frame with \<open>L\<close>'s pc and sp is pushed whose label is \<open>CALL\<close> or \<open>RST\<close>
  followed by the first symbol known for \<open>N\<close>'s pc or, when there is none, by \<open>N\<close>'s pc
  as four hexadecimal digits and \<open>h\<close>; then the new top frame (\<open>N\<close>'s pc, \<open>N\<close>'s sp,
  \<open>PC\<close>) is pushed. If \<open>N\<close> does not exist, the virtual stack is discarded.
\<close>

theorem handleReverseDebugStackFwrd_call:
  assumes "startsWith (instr L) ''CALL'' \<or> startsWith (instr L) ''RST''"
    and "regSP N < regSP L"
  shows "handleReverseDebugStackFwrd labels L (Some N) (Some (topFrame # rest))
         = Inr (Some (new_Frame (regPC N) (regSP N) ''PC''
                  # new_Frame (regPC L) (regSP L)
                      ((if startsWith (instr L) ''CALL'' then ''CALL '' else ''RST '')
                       @ (case getLabelsForNumber labels (regPC N) of
                            [] \<Rightarrow> getHexString (regPC N) 4 @ ''h''
                          | l # ls \<Rightarrow> l))
                  # rest))
       \<and> handleReverseDebugStackFwrd labels L None st = Inr None"
  using assms call_or_rst_not_ret [OF assms(1)]
  by (simp add: handleReverseDebugStackFwrd_def Let_def split: list.splits)

text \<open>The example of the claim, with and without the symbol \<open>L8000\<close> at \<open>0x8000\<close>.\<close>

theorem handleReverseDebugStackFwrd_call_witness:
  "(startsWith (instr \<lparr>instr = ''CALL 8000h'', regPC = 0x9000, regSP = 0xFF00\<rparr>) ''CALL''
      \<or> startsWith (instr \<lparr>instr = ''CALL 8000h'', regPC = 0x9000, regSP = 0xFF00\<rparr>) ''RST'')
   \<and> regSP \<lparr>instr = ''NOP'', regPC = 0x8000, regSP = 0xFEFE\<rparr>
       < regSP \<lparr>instr = ''CALL 8000h'', regPC = 0x9000, regSP = 0xFF00\<rparr>
   \<and> handleReverseDebugStackFwrd [(0x8000, ''L8000'')]
        \<lparr>instr = ''CALL 8000h'', regPC = 0x9000, regSP = 0xFF00\<rparr>
        (Some \<lparr>instr = ''NOP'', regPC = 0x8000, regSP = 0xFEFE\<rparr>)
        (Some [\<lparr>addr = 0x9000, stackAddr = 0xFF00, name = ''PC'', stack = []\<rparr>])
       = Inr (Some [\<lparr>addr = 0x8000, stackAddr = 0xFEFE, name = ''PC'', stack = []\<rparr>,
                    \<lparr>addr = 0x9000, stackAddr = 0xFF00, name = ''CALL L8000'', stack = []\<rparr>])
   \<and> handleReverseDebugStackFwrd [(0x8000, ''L8000'')]
        \<lparr>instr = ''CALL 8000h'', regPC = 0x9000, regSP = 0xFF00\<rparr> None
        (Some [\<lparr>addr = 0x9000, stackAddr = 0xFF00, name = ''PC'', stack = []\<rparr>])
       = Inr None"
  using handleReverseDebugStackFwrd_call
    [where L = "\<lparr>instr = ''CALL 8000h'', regPC = 0x9000, regSP = 0xFF00\<rparr>"
       and N = "\<lparr>instr = ''NOP'', regPC = 0x8000, regSP = 0xFEFE\<rparr>"
       and labels = "[(0x8000, ''L8000'')]"
       and topFrame = "\<lparr>addr = 0x9000, stackAddr = 0xFF00, name = ''PC'', stack = []\<rparr>"
       and rest = "[]"
       and st = "Some [\<lparr>addr = 0x9000, stackAddr = 0xFF00, name = ''PC'', stack = []\<rparr>]"]
  by (simp add: startsWith_def new_Frame_def getLabelsForNumber_def)

section \<open>Properties of the breakpoint ids and of the watchpoints\<close>

lemma foldl_zSocket_send:
  "foldl (\<lambda>s i. zSocket_send (f i) s) s xs = s\<lparr>sent := sent s @ map f xs\<rparr>"
  by (induction xs arbitrary: s) (simp_all add: zSocket_send_def)

lemma clearAllZesaruxBreakpoints_sent:
  "clearAllZesaruxBreakpoints s
   = s\<lparr>sent := sent s @ map (\<lambda>i. ''disable-breakpoint '' @ toString i 10)
                           [1..MAX_ZESARUX_BREAKPOINTS]\<rparr>"
  unfolding clearAllZesaruxBreakpoints_def by (rule foldl_zSocket_send)

lemma initBreakpoints_fields:
  "freeBreakpointIds (initBreakpoints s) = [1..99]"
  "breakpoints (initBreakpoints s) = breakpoints s"
  "store (initBreakpoints s) = store s"
  "warnings (initBreakpoints s) = warnings s"
  by (simp_all add: initBreakpoints_def clearAllZesaruxBreakpoints_sent
      zSocket_send_def MAX_USED_BREAKPOINTS_def MAX_ZESARUX_BREAKPOINTS_def Let_def)

lemma initBreakpoints_pool:
  "set (freeBreakpointIds (initBreakpoints s)) = {1..99}
   \<and> distinct (freeBreakpointIds (initBreakpoints s))
   \<and> STEP_BREAKPOINT_ID \<notin> set (freeBreakpointIds (initBreakpoints s))"
  by (simp add: initBreakpoints_fields STEP_BREAKPOINT_ID_def)

lemma setBreakpoint_fields:
  "breakpoints (zSocket_send c s) = breakpoints s"
  "freeBreakpointIds (zSocket_send c s) = freeBreakpointIds s"
  "store (zSocket_send c s) = store s"
  "warnings (zSocket_send c s) = warnings s"
  "breakpoints (emit_warning c s) = breakpoints s"
  "freeBreakpointIds (emit_warning c s) = freeBreakpointIds s"
  "store (emit_warning c s) = store s"
  by (simp_all add: zSocket_send_def emit_warning_def)

text \<open>What \<open>setBreakpoint\<close> does to the pool and to the list of breakpoints.\<close>

lemma setBreakpoint_pool:
  "(fst (setBreakpoint conv r s) = 0
      \<and> freeBreakpointIds (snd (setBreakpoint conv r s)) = freeBreakpointIds s
      \<and> breakpoints (snd (setBreakpoint conv r s)) = breakpoints s)
   \<or> (freeBreakpointIds s \<noteq> []
      \<and> fst (setBreakpoint conv r s) = hd (freeBreakpointIds s)
      \<and> freeBreakpointIds (snd (setBreakpoint conv r s)) = tl (freeBreakpointIds s)
      \<and> breakpoints (snd (setBreakpoint conv r s)) = breakpoints s @ [r])"
  by (simp add: setBreakpoint_def Let_def setBreakpoint_fields split: option.splits prod.splits)

lemma pool_inv_init: "pool_inv (initBreakpoints (new_ZesaruxEmulator st))"
  by (simp add: pool_inv_def initBreakpoints_fields new_ZesaruxEmulator_def)

lemma pool_inv_setBreakpoint:
  assumes "pool_inv s"
  shows "pool_inv (snd (setBreakpoint conv r s))"
    and "0 \<le> fst (setBreakpoint conv r s) \<and> fst (setBreakpoint conv r s) \<le> 99"
    and "fst (setBreakpoint conv r s) \<noteq> STEP_BREAKPOINT_ID"
proof -
  from setBreakpoint_pool [of conv r s]
  show "pool_inv (snd (setBreakpoint conv r s))"
  proof
    assume "fst (setBreakpoint conv r s) = 0
      \<and> freeBreakpointIds (snd (setBreakpoint conv r s)) = freeBreakpointIds s
      \<and> breakpoints (snd (setBreakpoint conv r s)) = breakpoints s"
    with assms show ?thesis by (simp add: pool_inv_def)
  next
    assume a: "freeBreakpointIds s \<noteq> []
      \<and> fst (setBreakpoint conv r s) = hd (freeBreakpointIds s)
      \<and> freeBreakpointIds (snd (setBreakpoint conv r s)) = tl (freeBreakpointIds s)
      \<and> breakpoints (snd (setBreakpoint conv r s)) = breakpoints s @ [r]"
    then obtain x xs where "freeBreakpointIds s = x # xs" by (cases "freeBreakpointIds s") auto
    with a assms show ?thesis by (simp add: pool_inv_def)
  qed
  from setBreakpoint_pool [of conv r s]
  show range: "0 \<le> fst (setBreakpoint conv r s) \<and> fst (setBreakpoint conv r s) \<le> 99"
  proof
    assume "fst (setBreakpoint conv r s) = 0
      \<and> freeBreakpointIds (snd (setBreakpoint conv r s)) = freeBreakpointIds s
      \<and> breakpoints (snd (setBreakpoint conv r s)) = breakpoints s"
    then show ?thesis by simp
  next
    assume a: "freeBreakpointIds s \<noteq> []
      \<and> fst (setBreakpoint conv r s) = hd (freeBreakpointIds s)
      \<and> freeBreakpointIds (snd (setBreakpoint conv r s)) = tl (freeBreakpointIds s)
      \<and> breakpoints (snd (setBreakpoint conv r s)) = breakpoints s @ [r]"
    then have "hd (freeBreakpointIds s) \<in> set (freeBreakpointIds s)" by simp
    with a assms show ?thesis by (simp add: pool_inv_def)
  qed
  then show "fst (setBreakpoint conv r s) \<noteq> STEP_BREAKPOINT_ID"
    by (simp add: STEP_BREAKPOINT_ID_def)
qed

lemma indexOf_range: "indexOf xs x = -1 \<or> (0 \<le> indexOf xs x \<and> indexOf xs x < int (length xs))"
  by (induction xs) (auto simp: Let_def)

lemma pool_inv_removeBreakpoint:
  assumes "pool_inv s" and "removeBreakpoint r s = Inr s'"
  shows "pool_inv s'"
proof -
  let ?i = "indexOf (breakpoints s) r"
  from assms(2) have found: "?i \<noteq> -1"
    by (auto simp: removeBreakpoint_def Let_def setBreakpoint_fields split: if_splits)
  with indexOf_range [of "breakpoints s" r]
  have range: "0 \<le> ?i" "?i < int (length (breakpoints s))" by auto
  from assms(2) found have s': "s' = (zSocket_send (''disable-breakpoint '' @ toString (bpId (store s r)) 10) s)
      \<lparr>breakpoints := take (nat ?i) (breakpoints s) @ drop (nat ?i + 1) (breakpoints s),
        freeBreakpointIds := freeBreakpointIds s @ [?i]\<rparr>"
    by (auto simp: removeBreakpoint_def Let_def setBreakpoint_fields)
  have len: "int (length (take (nat ?i) (breakpoints s) @ drop (nat ?i + 1) (breakpoints s)))
             = int (length (breakpoints s)) - 1"
    using range by auto
  from assms(1) range have "?i \<le> 99" by (simp add: pool_inv_def)
  with assms(1) range len show ?thesis
    unfolding s' pool_inv_def by (auto simp: setBreakpoint_fields)
qed

lemma pool_inv_run:
  "pool_inv s \<Longrightarrow> run_bp_ops conv s ops = Inr s' \<Longrightarrow> pool_inv s'"
proof (induction ops arbitrary: s)
  case Nil
  then show ?case by simp
next
  case (Cons op ops)
  show ?case
  proof (cases op)
    case (SetBp r)
    with Cons show ?thesis by (auto intro: pool_inv_setBreakpoint(1))
  next
    case (RemoveBp r)
    with Cons show ?thesis
      by (auto split: sum.splits intro: pool_inv_removeBreakpoint)
  qed
qed

text \<open>
  In every state reached from \<open>initBreakpoints\<close> by \<open>setBreakpoint\<close> and
  \<open>removeBreakpoint\<close> calls, \<open>setBreakpoint\<close> returns a number from 0 to 99, never the
  id reserved for stepping.
\<close>

lemma setBreakpoint_never_step_id:
  assumes "run_bp_ops conv (initBreakpoints (new_ZesaruxEmulator st)) ops = Inr s"
  shows "fst (setBreakpoint conv r s) \<noteq> STEP_BREAKPOINT_ID"
  using pool_inv_setBreakpoint(3) [OF pool_inv_run [OF pool_inv_init assms]] .

lemma setBreakpoint_no_logpoints:
  assumes "no_logpoints s"
  shows "no_logpoints (snd (setBreakpoint Some r s))"
    and "freeBreakpointIds (snd (setBreakpoint Some r s)) = drop 1 (freeBreakpointIds s)"
    and "address (store (snd (setBreakpoint Some r s)) r') = address (store s r')"
    and "freeBreakpointIds s = [] \<Longrightarrow> setBreakpoint Some r s = (0, s)"
  using assms
  by (auto simp: no_logpoints_def setBreakpoint_def Let_def setBreakpoint_fields drop_Suc
      split: prod.splits)

lemma run_setBreakpoints:
  assumes "no_logpoints s"
  shows "\<exists>s'. run_bp_ops Some s (map SetBp rs) = Inr s' \<and> no_logpoints s'
          \<and> freeBreakpointIds s' = drop (length rs) (freeBreakpointIds s)
          \<and> (\<forall>r'. address (store s' r') = address (store s r'))"
  using assms
proof (induction rs arbitrary: s)
  case Nil
  then show ?case by simp
next
  case (Cons r rs)
  let ?s1 = "snd (setBreakpoint Some r s)"
  note step = setBreakpoint_no_logpoints [OF Cons.prems, of r]
  from Cons.IH [OF step(1)] obtain s' where
    "run_bp_ops Some ?s1 (map SetBp rs) = Inr s'" "no_logpoints s'"
    "freeBreakpointIds s' = drop (length rs) (freeBreakpointIds ?s1)"
    "\<forall>r'. address (store s' r') = address (store ?s1 r')" by blast
  then show ?case using step(2,3) by (simp add: drop_Suc drop_tl)
qed

text \<open>
  Claim C8 at its failing input. \<open>initBreakpoints\<close> and 99 calls of \<open>setBreakpoint\<close>
  for 99 breakpoints use up the ids 1 to 99. The call for the hundredth breakpoint
  (address \<open>0x8000\<close>, no condition, no log message) returns 0 and leaves the state as
  it is: the address of the breakpoint stays \<open>0x8000\<close>, where the two other paths that
  return 0 set it to \<open>-1\<close> ("set to unverified").
\<close>

theorem setBreakpoint_no_free_id_keeps_address:
  "freeBreakpointIds (projr (run_bp_ops Some
       (initBreakpoints (new_ZesaruxEmulator (bp_store (replicate 100
          \<lparr>bpId = 0, filePath = ''main.asm'', lineNr = 1, address = 0x8000,
           condition = [], log = None\<rparr>))))
       (map SetBp [0..<99]))) = []
   \<and> setBreakpoint Some 99 (projr (run_bp_ops Some
       (initBreakpoints (new_ZesaruxEmulator (bp_store (replicate 100
          \<lparr>bpId = 0, filePath = ''main.asm'', lineNr = 1, address = 0x8000,
           condition = [], log = None\<rparr>))))
       (map SetBp [0..<99])))
     = (0, projr (run_bp_ops Some
       (initBreakpoints (new_ZesaruxEmulator (bp_store (replicate 100
          \<lparr>bpId = 0, filePath = ''main.asm'', lineNr = 1, address = 0x8000,
           condition = [], log = None\<rparr>))))
       (map SetBp [0..<99])))
   \<and> address (store (snd (setBreakpoint Some 99 (projr (run_bp_ops Some
       (initBreakpoints (new_ZesaruxEmulator (bp_store (replicate 100
          \<lparr>bpId = 0, filePath = ''main.asm'', lineNr = 1, address = 0x8000,
           condition = [], log = None\<rparr>))))
       (map SetBp [0..<99]))))) 99) = 0x8000"
proof -
  let ?bp = "\<lparr>bpId = 0, filePath = ''main.asm'', lineNr = 1, address = 0x8000,
           condition = [], log = None\<rparr>"
  let ?s0 = "initBreakpoints (new_ZesaruxEmulator (bp_store (replicate 100 ?bp)))"
  have nl: "no_logpoints ?s0"
    by (simp add: no_logpoints_def initBreakpoints_fields new_ZesaruxEmulator_def bp_store_def)
  from run_setBreakpoints [OF nl, of "[0..<99]"] obtain s' where
    run: "run_bp_ops Some ?s0 (map SetBp [0..<99]) = Inr s'" and nl': "no_logpoints s'"
    and pool: "freeBreakpointIds s' = drop (length [0..<99]) (freeBreakpointIds ?s0)"
    and addrs: "\<forall>r'. address (store s' r') = address (store ?s0 r')" by blast
  have empty: "freeBreakpointIds s' = []"
    using pool by (simp add: initBreakpoints_fields)
  have call: "setBreakpoint Some 99 s' = (0, s')"
    using setBreakpoint_no_logpoints(4) [OF nl' empty] .
  have "address (store s' 99) = 0x8000"
    using addrs by (simp add: initBreakpoints_fields new_ZesaruxEmulator_def bp_store_def)
  with run empty call show ?thesis by simp
qed

text \<open>
  Claim C10 at its failing input. After \<open>initBreakpoints\<close>, \<open>setBreakpoint\<close> hands
  out the id 1 to the breakpoint; \<open>removeBreakpoint\<close> of that breakpoint then appends
  its position in the list of breakpoints, 0, to the free ids: the pool is
  \<open>2, ..., 99, 0\<close>, the id 1 is lost and 0 is not a breakpoint id.
\<close>

theorem removeBreakpoint_frees_index_not_id:
  "fst (setBreakpoint Some 0
       (initBreakpoints (new_ZesaruxEmulator (bp_store
          [\<lparr>bpId = 0, filePath = ''main.asm'', lineNr = 1, address = 0x8000,
            condition = [], log = None\<rparr>])))) = 1
   \<and> map_sum id freeBreakpointIds (run_bp_ops Some
       (initBreakpoints (new_ZesaruxEmulator (bp_store
          [\<lparr>bpId = 0, filePath = ''main.asm'', lineNr = 1, address = 0x8000,
            condition = [], log = None\<rparr>])))
       [SetBp 0, RemoveBp 0]) = Inr ([2..99] @ [0])"
proof -
  have pool: "[1..99] = 1 # [2..99]" by (simp add: upto_rec1)
  show ?thesis
    by (simp add: setBreakpoint_def removeBreakpoint_def Let_def initBreakpoints_fields
        setBreakpoint_fields new_ZesaruxEmulator_def bp_store_def pool)
qed

lemma setWatchpoints_foldl:
  "foldl setWatchpoint_step s wps
   = s\<lparr>sent := sent s @ map set_membreakpoint_cmd (filter (\<lambda>wp. conditions wp = []) wps)\<rparr>"
proof (induction wps arbitrary: s)
  case Nil
  show ?case by simp
next
  case (Cons wp wps)
  have "foldl setWatchpoint_step s (wp # wps)
        = foldl setWatchpoint_step (setWatchpoint_step s wp) wps" by simp
  also have "\<dots> = (setWatchpoint_step s wp)
      \<lparr>sent := sent (setWatchpoint_step s wp)
         @ map set_membreakpoint_cmd (filter (\<lambda>wp. conditions wp = []) wps)\<rparr>"
    by (rule Cons.IH)
  also have "\<dots> = s\<lparr>sent := sent s
         @ map set_membreakpoint_cmd (filter (\<lambda>wp. conditions wp = []) (wp # wps))\<rparr>"
    by (cases "conditions wp = []") (simp_all add: setWatchpoint_step_def zSocket_send_def)
  finally show ?case .
qed

text \<open>
  Claim C9, as stated, fails: for a watchpoint with a condition no warning is emitted.
  The watchpoint is skipped silently; the one without a condition is armed.
\<close>

theorem setWatchpoints_counterexample:
  "warnings (setWatchpoints
      [\<lparr>wpAddress = 0x8000, wpSize = 2, access = ''rw'', conditions = ''A==1''\<rparr>,
       \<lparr>wpAddress = 0x9000, wpSize = 1, access = ''w'', conditions = []\<rparr>]
      (new_ZesaruxEmulator (bp_store []))) = []
   \<and> sent (setWatchpoints
      [\<lparr>wpAddress = 0x8000, wpSize = 2, access = ''rw'', conditions = ''A==1''\<rparr>,
       \<lparr>wpAddress = 0x9000, wpSize = 1, access = ''w'', conditions = []\<rparr>]
      (new_ZesaruxEmulator (bp_store []))) = [''set-membreakpoint 9000h 2 1'']"
  by (simp add: setWatchpoints_def setWatchpoint_step_def set_membreakpoint_cmd_def
      watchpoint_type_def zSocket_send_def new_ZesaruxEmulator_def toString_def
      to_digits.simps digit_char_def)

text \<open>
  Claim C9, amended. \<open>setWatchpoints\<close> sends one \<open>set-membreakpoint\<close> command for
  every watchpoint without a condition, in the order of the list, and none for a
  watchpoint with a condition; it emits no warning and changes nothing else, and it has no
  failing path.
\<close>

theorem setWatchpoints_arms_unconditional:
  "sent (setWatchpoints wps s)
     = sent s @ map set_membreakpoint_cmd (filter (\<lambda>wp. conditions wp = []) wps)
   \<and> warnings (setWatchpoints wps s) = warnings s
   \<and> freeBreakpointIds (setWatchpoints wps s) = freeBreakpointIds s
   \<and> breakpoints (setWatchpoints wps s) = breakpoints s
   \<and> store (setWatchpoints wps s) = store s"
  by (simp add: setWatchpoints_def setWatchpoints_foldl)

section \<open>Properties of the memory models\<close>

lemma map_slots_length: "length (map_slots sz nm sl) = length sl"
  by (simp add: map_slots_def)

lemma map_slots_nth:
  "i < length sl \<Longrightarrow>
   map_slots sz nm sl ! i
     = \<lparr>mb_start = int i * sz, mb_end = int i * sz + sz - 1, mb_name = nm i (sl ! i)\<rparr>"
  by (simp add: map_slots_def nth_enumerate_eq Let_def)

lemma contiguous_nth:
  "(\<And>i. Suc i < length bs \<Longrightarrow> mb_start (bs ! Suc i) = mb_end (bs ! i) + 1) \<Longrightarrow> contiguous bs"
proof (induction bs rule: contiguous.induct)
  case 1
  show ?case by simp
next
  case (2 b)
  show ?case by simp
next
  case (3 a b bs)
  have "mb_start b = mb_end a + 1" using "3.prems" [of 0] by simp
  moreover have "contiguous (b # bs)"
  proof (rule "3.IH")
    fix i assume "Suc i < length (b # bs)"
    then show "mb_start ((b # bs) ! Suc i) = mb_end ((b # bs) ! i) + 1"
      using "3.prems" [of "Suc i"] by simp
  qed
  ultimately show ?case by simp
qed

lemma map_slots_partition:
  assumes sz: "0 < sz" and ne: "sl \<noteq> []" and total: "int (length sl) * sz = 0x10000"
  shows "partitions_64k (map_slots sz nm sl)"
proof -
  let ?bs = "map_slots sz nm sl"
  have len: "length ?bs = length sl" by (rule map_slots_length)
  have pos: "0 < length sl" using ne by simp
  have nonempty: "?bs \<noteq> []" using ne len by auto
  have first: "mb_start (hd ?bs) = 0"
    using pos nonempty by (simp add: hd_conv_nth map_slots_nth)
  have "mb_end (last ?bs) = int (length sl - 1) * sz + sz - 1"
    using pos nonempty len by (simp add: last_conv_nth map_slots_nth)
  also have "int (length sl - 1) = int (length sl) - 1" using ne by (cases sl) simp_all
  also have "(int (length sl) - 1) * sz + sz - 1 = int (length sl) * sz - 1"
    by (simp add: algebra_simps)
  finally have last: "mb_end (last ?bs) = 0xFFFF" using total by simp
  have cont: "contiguous ?bs"
  proof (rule contiguous_nth)
    fix i assume "Suc i < length ?bs"
    then have "Suc i < length sl" "i < length sl" using len by simp_all
    then show "mb_start (?bs ! Suc i) = mb_end (?bs ! i) + 1"
      by (simp add: map_slots_nth algebra_simps)
  qed
  have each: "list_all (\<lambda>b. mb_start b \<le> mb_end b) ?bs"
    unfolding list_all_length
  proof (intro allI impI)
    fix i assume "i < length ?bs"
    then have "i < length sl" using len by simp
    then show "mb_start (?bs ! i) \<le> mb_end (?bs ! i)"
      using sz by (simp add: map_slots_nth)
  qed
  have asc: "sorted_wrt (<) (map mb_start ?bs)"
    unfolding sorted_wrt_iff_nth_less
  proof (intro allI impI)
    fix i j assume ij: "i < j" and j: "j < length (map mb_start ?bs)"
    then have jl: "j < length sl" and il: "i < length sl" using len by simp_all
    have "int i * sz < int j * sz" using ij sz by simp
    then show "map mb_start ?bs ! i < map mb_start ?bs ! j"
      using il jl len by (simp add: map_slots_nth)
  qed
  from nonempty first last cont each asc show ?thesis
    by (simp add: partitions_64k_def)
qed

lemma bankSize_total:
  assumes "0 < slotCount m" "slotCount m dvd 0x10000"
  shows "0 < bankSize m" and "slotCount m * bankSize m = 0x10000"
proof -
  from assms(2) obtain k where k: "0x10000 = slotCount m * k" by (auto simp: dvd_def)
  have "bankSize m = slotCount m * k div slotCount m"
    unfolding bankSize_def by (subst k) (rule refl)
  also have "\<dots> = k" using assms(1) by simp
  finally have "bankSize m = k" .
  moreover have "0 < k"
  proof (rule ccontr)
    assume "\<not> 0 < k"
    then have "slotCount m * k \<le> 0" using assms(1) by (simp add: mult_le_0_iff)
    with k show False by simp
  qed
  ultimately show "0 < bankSize m" and "slotCount m * bankSize m = 0x10000"
    using k by simp_all
qed

lemma contiguous_imp_nth:
  "contiguous bs \<Longrightarrow> Suc i < length bs \<Longrightarrow> mb_start (bs ! Suc i) = mb_end (bs ! i) + 1"
proof (induction bs arbitrary: i rule: contiguous.induct)
  case 1
  then show ?case by simp
next
  case (2 b)
  then show ?case by simp
next
  case (3 a b bs)
  show ?case
  proof (cases i)
    case 0
    with "3.prems" show ?thesis by simp
  next
    case (Suc j)
    with "3.prems" "3.IH" [of j] show ?thesis by simp
  qed
qed

lemma partitions_64k_unfold:
  assumes "partitions_64k bs"
  shows "bs \<noteq> [] \<and> mb_start (hd bs) = 0 \<and> mb_end (last bs) = 0xFFFF
       \<and> (\<forall>i. Suc i < length bs \<longrightarrow> mb_start (bs ! Suc i) = mb_end (bs ! i) + 1)
       \<and> (\<forall>i < length bs. mb_start (bs ! i) \<le> mb_end (bs ! i))
       \<and> sorted_wrt (<) (map mb_start bs)"
  using assms by (auto simp: partitions_64k_def contiguous_imp_nth list_all_length)

lemma getMemoryBanks_valid:
  assumes "valid_model m" and "slot_assignment m slotsArg"
  shows "\<exists>bs. getMemoryBanks m slotsArg = Some bs \<and> partitions_64k bs"
proof (cases m)
  case (MemoryModel n banks)
  with assms(1) show ?thesis by (auto split: option.splits)
next
  case (Zx128MemoryModel n)
  with assms(2) obtain sl where sl: "slotsArg = Some sl" "int (length sl) = n"
    by (auto split: option.splits)
  from assms(1) Zx128MemoryModel have v: "0 < slotCount m" "slotCount m dvd 0x10000" by simp_all
  have "partitions_64k (map_slots (bankSize m) zx128_name sl)"
  proof (rule map_slots_partition)
    show "0 < bankSize m" using v by (rule bankSize_total)
    show "sl \<noteq> []" using sl v Zx128MemoryModel by auto
    show "int (length sl) * bankSize m = 0x10000"
      using bankSize_total(2) [OF v] sl Zx128MemoryModel by simp
  qed
  with sl Zx128MemoryModel show ?thesis by simp
next
  case ZxNextMemoryModel
  with assms(2) obtain sl where sl: "slotsArg = Some sl" "int (length sl) = 8"
    by (auto split: option.splits)
  from assms(1) ZxNextMemoryModel have v: "0 < slotCount m" "slotCount m dvd 0x10000" by simp_all
  have "partitions_64k (map_slots (bankSize m) zxnext_name sl)"
  proof (rule map_slots_partition)
    show "0 < bankSize m" using v by (rule bankSize_total)
    show "sl \<noteq> []" using sl by auto
    show "int (length sl) * bankSize m = 0x10000"
      using bankSize_total(2) [OF v] sl ZxNextMemoryModel by simp
  qed
  with sl ZxNextMemoryModel show ?thesis by simp
next
  case (CustomMemoryModel owner)
  define sl where "sl = (case slotsArg of Some sl \<Rightarrow> sl | None \<Rightarrow> slots owner)"
  from assms(2) CustomMemoryModel have len: "int (length sl) = slotCount m"
    by (auto simp: sl_def split: option.splits)
  from assms(1) CustomMemoryModel have v: "0 < slotCount m" "slotCount m dvd 0x10000" by simp_all
  have "partitions_64k (map_slots (bankSize m) (custom_name owner) sl)"
  proof (rule map_slots_partition)
    show "0 < bankSize m" using v by (rule bankSize_total)
    show "sl \<noteq> []" using len v by auto
    show "int (length sl) * bankSize m = 0x10000"
      using bankSize_total(2) [OF v] len by simp
  qed
  with CustomMemoryModel show ?thesis by (simp add: sl_def)
next
  case (CustomMemoryModel_populatedSlots owner)
  define sl where "sl = (case slotsArg of Some sl \<Rightarrow> sl | None \<Rightarrow> slots owner)"
  from assms(2) CustomMemoryModel_populatedSlots have len: "int (length sl) = slotCount m"
    by (auto simp: sl_def split: option.splits)
  from assms(1) CustomMemoryModel_populatedSlots
  have v: "0 < slotCount m" "slotCount m dvd 0x10000" by simp_all
  have "partitions_64k (map_slots (bankSize m) (custom_name_populatedSlots owner) sl)"
  proof (rule map_slots_partition)
    show "0 < bankSize m" using v by (rule bankSize_total)
    show "sl \<noteq> []" using len v by auto
    show "int (length sl) * bankSize m = 0x10000"
      using bankSize_total(2) [OF v] len by simp
  qed
  with CustomMemoryModel_populatedSlots show ?thesis by (simp add: sl_def)
qed

text \<open>
  Claim C1. For every valid configuration of every variant of the memory model (the base
  class with its hard-coded descriptors as in \<open>Zx16MemoryModel\<close> and
  \<open>Zx48MemoryModel\<close>, the ZX128 and ZX Next models, the custom models) and every slot
  assignment of the model, \<open>getMemoryBanks\<close> returns descriptors that partition
  \<open>[0, 0xFFFF]\<close>: the first starts at 0, the last ends at \<open>0xFFFF\<close>, each one starts
  one after the end of the one before it, none is empty, and the starts ascend.
\<close>

theorem getMemoryBanks_partition:
  assumes "valid_model m" and "slot_assignment m slotsArg"
  shows "\<exists>bs. getMemoryBanks m slotsArg = Some bs
          \<and> bs \<noteq> [] \<and> mb_start (hd bs) = 0 \<and> mb_end (last bs) = 0xFFFF
          \<and> (\<forall>i. Suc i < length bs \<longrightarrow> mb_start (bs ! Suc i) = mb_end (bs ! i) + 1)
          \<and> (\<forall>i < length bs. mb_start (bs ! i) \<le> mb_end (bs ! i))
          \<and> sorted_wrt (<) (map mb_start bs)"
proof -
  from getMemoryBanks_valid [OF assms] obtain bs where
    "getMemoryBanks m slotsArg = Some bs" "partitions_64k bs" by blast
  with partitions_64k_unfold [of bs] show ?thesis by blast
qed

lemmas memory_eval =
  Zx16MemoryModel_def Zx48MemoryModel_def partitions_64k_def bankSize_def map_slots_def
  zx128_name_def zxnext_name_def custom_name_def custom_name_populatedSlots_def flag_at_def
  toString_def to_digits.simps digit_char_def Let_def

text \<open>
  The two hard-coded models, the ZX128 model with the slots \<open>9, 5, 2, 0\<close>, the ZX Next
  model with its initial slots, and a custom model of two slots of 32K (ROM and RAM).
\<close>

theorem getMemoryBanks_partition_witness:
  "valid_model Zx16MemoryModel \<and> slot_assignment Zx16MemoryModel None
   \<and> valid_model Zx48MemoryModel \<and> slot_assignment Zx48MemoryModel (Some [0, 1, 2, 3])
   \<and> valid_model (Zx128MemoryModel 4) \<and> slot_assignment (Zx128MemoryModel 4) (Some [9, 5, 2, 0])
   \<and> getMemoryBanks (Zx128MemoryModel 4) (Some [9, 5, 2, 0])
       = Some [\<lparr>mb_start = 0x0000, mb_end = 0x3FFF, mb_name = ''ROM1''\<rparr>,
               \<lparr>mb_start = 0x4000, mb_end = 0x7FFF, mb_name = ''BANK5''\<rparr>,
               \<lparr>mb_start = 0x8000, mb_end = 0xBFFF, mb_name = ''BANK2''\<rparr>,
               \<lparr>mb_start = 0xC000, mb_end = 0xFFFF, mb_name = ''BANK0''\<rparr>]
   \<and> valid_model ZxNextMemoryModel
   \<and> slot_assignment ZxNextMemoryModel (Some [254, 255, 10, 11, 4, 5, 0, 1])
   \<and> valid_model (CustomMemoryModel
        \<lparr>slots = [0, 1], romBanks = [True, False], notPopulatedBank = -1, populatedSlots = []\<rparr>)
   \<and> slot_assignment (CustomMemoryModel
        \<lparr>slots = [0, 1], romBanks = [True, False], notPopulatedBank = -1, populatedSlots = []\<rparr>)
        None
   \<and> getMemoryBanks (CustomMemoryModel
        \<lparr>slots = [0, 1], romBanks = [True, False], notPopulatedBank = -1, populatedSlots = []\<rparr>)
        None
       = Some [\<lparr>mb_start = 0x0000, mb_end = 0x7FFF, mb_name = ''ROM''\<rparr>,
               \<lparr>mb_start = 0x8000, mb_end = 0xFFFF, mb_name = ''RAM''\<rparr>]"
  using getMemoryBanks_partition [of Zx16MemoryModel None]
    getMemoryBanks_partition [of Zx48MemoryModel "Some [0, 1, 2, 3]"]
    getMemoryBanks_partition [of "Zx128MemoryModel 4" "Some [9, 5, 2, 0]"]
    getMemoryBanks_partition [of ZxNextMemoryModel "Some [254, 255, 10, 11, 4, 5, 0, 1]"]
    getMemoryBanks_partition [of "CustomMemoryModel
        \<lparr>slots = [0, 1], romBanks = [True, False], notPopulatedBank = -1, populatedSlots = []\<rparr>"
        None]
  by (simp add: memory_eval enumerate_eq_zip)

end
